theory Spec2Isabelle
  imports Main
begin

section \<open>JavaScript strings and the regular expressions of the validator\<close>

text \<open>
  A JavaScript string is a sequence of UTF-16 code units.  The regular expressions of
  \<^verbatim>\<open>commandAllowlist.js\<close> carry no \<^verbatim>\<open>u\<close> flag, so they work on code units too.
\<close>

type_synonym cu = nat
type_synonym jstring = "cu list"

definition js :: "string \<Rightarrow> jstring" where
  "js s = map of_char s"

text \<open>
  The class \<^verbatim>\<open>\s\<close> and the characters removed by \<^verbatim>\<open>String.prototype.trim\<close> are the same
  set: WhiteSpace and LineTerminator of ECMAScript.
\<close>

definition is_ws :: "cu \<Rightarrow> bool" where
  "is_ws c \<longleftrightarrow>
     c = 9 \<or> c = 10 \<or> c = 11 \<or> c = 12 \<or> c = 13 \<or> c = 32 \<or> c = 160 \<or> c = 5760 \<or>
     (8192 \<le> c \<and> c \<le> 8202) \<or> c = 8232 \<or> c = 8233 \<or> c = 8239 \<or> c = 8287 \<or>
     c = 12288 \<or> c = 65279"

definition is_line_terminator :: "cu \<Rightarrow> bool" where
  "is_line_terminator c \<longleftrightarrow> c = 10 \<or> c = 13 \<or> c = 8232 \<or> c = 8233"

text \<open>
  Canonicalize of the \<^verbatim>\<open>i\<close> flag (no \<^verbatim>\<open>u\<close> flag): a code unit is upper-cased, and a
  code unit from 128 on is never mapped below 128.  Every literal of the patterns is
  ASCII, so only the ASCII part of the mapping decides a comparison with a literal.
\<close>

definition canonicalize :: "cu \<Rightarrow> cu" where
  "canonicalize c = (if 97 \<le> c \<and> c \<le> 122 then c - 32 else c)"

datatype cls = Ch cu | Space | Dot

fun cls_match :: "cls \<Rightarrow> cu \<Rightarrow> bool" where
  "cls_match (Ch p) c = (canonicalize c = canonicalize p)"
| "cls_match Space c = is_ws c"
| "cls_match Dot c = (\<not> is_line_terminator c)"

text \<open>
  Every pattern of the file is a sequence of single characters, \<^verbatim>\<open>\s+\<close>, \<^verbatim>\<open>\s*\<close>,
  \<^verbatim>\<open>.*\<close> and \<^verbatim>\<open>$\<close>; there is no group and no alternation.
\<close>

datatype item = One cls | Star cls | Plus cls | Eol

type_synonym regex = "item list"

fun match_here :: "regex \<Rightarrow> jstring \<Rightarrow> bool" where
  "match_here [] s = True"
| "match_here (Eol # r) s = (s = [] \<and> match_here r s)"
| "match_here (One k # r) [] = False"
| "match_here (One k # r) (c # s) = (cls_match k c \<and> match_here r s)"
| "match_here (Star k # r) [] = match_here r []"
| "match_here (Star k # r) (c # s) =
     (match_here r (c # s) \<or> (cls_match k c \<and> match_here (Star k # r) s))"
| "match_here (Plus k # r) [] = False"
| "match_here (Plus k # r) (c # s) = (cls_match k c \<and> match_here (Star k # r) s)"

text \<open>\<^verbatim>\<open>RegExp.prototype.test\<close> without the \<^verbatim>\<open>g\<close> flag: a match starting anywhere.\<close>

fun regex_test :: "regex \<Rightarrow> jstring \<Rightarrow> bool" where
  "regex_test r [] = match_here r []"
| "regex_test r (c # s) = (match_here r (c # s) \<or> regex_test r s)"

text \<open>A run of literal characters of a pattern.\<close>

definition lit :: "string \<Rightarrow> regex" where
  "lit s = map (\<lambda>c. One (Ch (of_char c))) s"

section \<open>String operations used by the validator\<close>

text \<open>\<^verbatim>\<open>s.trim()\<close>\<close>

definition trim :: "jstring \<Rightarrow> jstring" where
  "trim s = rev (dropWhile is_ws (rev (dropWhile is_ws s)))"

text \<open>\<^verbatim>\<open>s.split(sep)[0]\<close> for a one-character separator: the part before its first occurrence.\<close>

definition split_first :: "cu \<Rightarrow> jstring \<Rightarrow> jstring" where
  "split_first sep s = takeWhile (\<lambda>c. c \<noteq> sep) s"

text \<open>
  \<^verbatim>\<open>s.split(/\s+/)\<close>: the pieces between maximal runs of white space; a leading or trailing
  run leaves an empty piece, and the empty string gives one empty piece.
\<close>

function split_ws :: "jstring \<Rightarrow> jstring list" where
  "split_ws [] = [[]]"
| "split_ws (c # s) =
     (if is_ws c then [] # split_ws (dropWhile is_ws s)
      else (case split_ws s of [] \<Rightarrow> [[c]] | p # ps \<Rightarrow> (c # p) # ps))"
  by pat_completeness auto
termination
  by (relation "measure length") (simp_all add: le_imp_less_Suc length_dropWhile_le)

text \<open>\<^verbatim>\<open>parts.join(' ')\<close>\<close>

fun join_space :: "jstring list \<Rightarrow> jstring" where
  "join_space [] = []"
| "join_space [p] = p"
| "join_space (p # q # ps) = p @ 32 # join_space (q # ps)"

section \<open>The allowlist and the denylist (commandAllowlist.js)\<close>

definition ALLOWED_COMMANDS :: "(string \<times> string list) list" where
  "ALLOWED_COMMANDS =
    [(''git'', [''status'', ''diff'', ''log'', ''ls-files'', ''diff --cached --name-only'',
                ''checkout -b'', ''add .'', ''commit -m'', ''push -u origin'', ''branch'',
                ''remote -v'', ''show'']),
     (''npm'', [''test'', ''run test'']),
     (''yarn'', [''test'']),
     (''node'', []),
     (''python'', [''-m pytest'', ''-m unittest'']),
     (''pytest'', []),
     (''ls'', []),
     (''dir'', []),
     (''pwd'', []),
     (''echo'', [])]"

definition DANGEROUS_PATTERNS :: "regex list" where
  "DANGEROUS_PATTERNS =
    [lit ''rm'' @ [Plus Space] @ lit ''-rf'',
     lit ''rm'' @ [Plus Space] @ lit ''-r'' @ [Plus Space],
     lit ''del'' @ [Plus Space] @ lit ''/s'',
     lit ''rmdir'' @ [Plus Space] @ lit ''/s'',
     lit ''format'' @ [Plus Space],
     lit ''mkfs'',
     lit ''dd'' @ [Plus Space] @ lit ''if='',
     lit ''shutdown'',
     lit ''reboot'',
     lit ''sudo'',
     lit ''su'' @ [Plus Space],
     lit ''|'' @ [Star Space] @ lit ''sh'' @ [Star Space, Eol],
     lit ''|'' @ [Star Space] @ lit ''bash'' @ [Star Space, Eol],
     lit ''|'' @ [Star Space] @ lit ''cmd'' @ [Star Space, Eol],
     lit ''|'' @ [Star Space] @ lit ''powershell'' @ [Star Space, Eol],
     lit ''>'' @ [Star Space] @ lit ''/dev/null'',
     lit ''curl'' @ [Plus Space, Star Dot, Plus Space] @ lit ''|'' @ [Star Space] @ lit ''sh'',
     lit ''wget'' @ [Plus Space, Star Dot, Plus Space] @ lit ''|'' @ [Star Space] @ lit ''sh'',
     lit ''eval'' @ [Star Space] @ lit ''('',
     lit ''exec'' @ [Star Space] @ lit ''('',
     lit ''system'' @ [Star Space] @ lit ''('',
     lit ''chmod'' @ [Plus Space] @ lit ''777'',
     lit ''chown'' @ [Plus Space],
     lit ''kill'' @ [Plus Space] @ lit ''-9'',
     lit ''pkill'']"

text \<open>
  \<^verbatim>\<open>ALLOWED_COMMANDS[baseCommand]\<close> is a property read of an object literal: a name
  that is not a key of the table is looked up on \<^verbatim>\<open>Object.prototype\<close>.  Its properties
  are functions (of which the code reads \<^verbatim>\<open>length\<close>, the number of declared parameters)
  and \<^verbatim>\<open>__proto__\<close>, which reads as the prototype object itself.
\<close>

datatype property = Undefined | ArgList "string list" | Func nat | ProtoObject

definition object_prototype :: "(string \<times> property) list" where
  "object_prototype =
    [(''constructor'', Func 1),
     (''__defineGetter__'', Func 2),
     (''__defineSetter__'', Func 2),
     (''hasOwnProperty'', Func 1),
     (''__lookupGetter__'', Func 1),
     (''__lookupSetter__'', Func 1),
     (''isPrototypeOf'', Func 1),
     (''propertyIsEnumerable'', Func 1),
     (''toString'', Func 0),
     (''valueOf'', Func 0),
     (''__proto__'', ProtoObject),
     (''toLocaleString'', Func 0)]"

fun lookup_key :: "(string \<times> 'a) list \<Rightarrow> jstring \<Rightarrow> 'a option" where
  "lookup_key [] k = None"
| "lookup_key ((n, v) # t) k = (if js n = k then Some v else lookup_key t k)"

definition get_property :: "jstring \<Rightarrow> property" where
  "get_property k =
     (case lookup_key ALLOWED_COMMANDS k of
        Some args \<Rightarrow> ArgList args
      | None \<Rightarrow> (case lookup_key object_prototype k of Some p \<Rightarrow> p | None \<Rightarrow> Undefined))"

text \<open>
  \<^verbatim>\<open>new RegExp(`^${allowedArg.replace(/\s+/g, '\\s+')}`, 'i')\<close>: each run of white space
  becomes \<^verbatim>\<open>\s+\<close>, and the rest of the entry is read as a pattern, where \<^verbatim>\<open>.\<close> (in
  \<^verbatim>\<open>'add .'\<close>) is the wildcard; no other special character occurs in the table.  The
  anchor \<^verbatim>\<open>^\<close> is the use of \<open>match_here\<close> below.
\<close>

function arg_pattern :: "jstring \<Rightarrow> regex" where
  "arg_pattern [] = []"
| "arg_pattern (c # s) =
     (if is_ws c then Plus Space # arg_pattern (dropWhile is_ws s)
      else (if c = 46 then One Dot else One (Ch c)) # arg_pattern s)"
  by pat_completeness auto
termination
  by (relation "measure length") (simp_all add: le_imp_less_Suc length_dropWhile_le)

datatype js_error = TypeError

definition matches_dangerous :: "jstring \<Rightarrow> bool" where
  "matches_dangerous command = list_ex (\<lambda>pattern. regex_test pattern command) DANGEROUS_PATTERNS"

definition some_arg_matches :: "string list \<Rightarrow> jstring \<Rightarrow> bool" where
  "some_arg_matches allowedArgs args =
     list_ex (\<lambda>allowedArg. args = js allowedArg \<or> match_here (arg_pattern (js allowedArg)) args)
       allowedArgs"

text \<open>
  \<open>isCommandAllowed\<close>.  The argument is a string, so of the first test only the empty
  string is left.  A function of \<^verbatim>\<open>Object.prototype\<close> is truthy: with no declared
  parameter its \<^verbatim>\<open>length\<close> is 0 and the command is allowed, otherwise the call of
  \<^verbatim>\<open>allowedArgs.some\<close> throws a TypeError, as it does for \<^verbatim>\<open>__proto__\<close>.
\<close>

definition isCommandAllowed :: "jstring \<Rightarrow> js_error + bool" where
  "isCommandAllowed command =
     (if command = [] then Inr False
      else if matches_dangerous command then Inr False
      else (case split_ws (trim command) of
              [] \<Rightarrow> Inr False
            | baseCommand # rest \<Rightarrow>
                (let args = join_space rest in
                 case get_property baseCommand of
                   Undefined \<Rightarrow> Inr False
                 | ArgList allowedArgs \<Rightarrow>
                     if length allowedArgs = 0 then Inr True
                     else Inr (some_arg_matches allowedArgs args)
                 | Func n \<Rightarrow> if n = 0 then Inr True else Inl TypeError
                 | ProtoObject \<Rightarrow> Inl TypeError)))"

record validation =
  allowed :: bool
  sanitized :: "jstring option"
  reason :: "string option"

definition sanitize :: "jstring \<Rightarrow> jstring" where
  "sanitize command = trim (split_first 38 (split_first 60 (split_first 62 (split_first 124 command))))"

definition validateCommand :: "jstring \<Rightarrow> js_error + validation" where
  "validateCommand command =
     (if command = [] then
        Inr \<lparr>allowed = False, sanitized = None, reason = Some ''Invalid command''\<rparr>
      else if sanitize command \<noteq> trim command then
        Inr \<lparr>allowed = False, sanitized = None,
             reason = Some ''Shell redirection/piping not allowed''\<rparr>
      else (case isCommandAllowed (sanitize command) of
              Inl e \<Rightarrow> Inl e
            | Inr ok \<Rightarrow>
                if \<not> ok then
                  Inr \<lparr>allowed = False, sanitized = None, reason = Some ''Command not in allowlist''\<rparr>
                else Inr \<lparr>allowed = True, sanitized = Some (sanitize command), reason = None\<rparr>))"

text \<open>The characters that \<open>validateCommand\<close> splits on: pipe, the two redirections, ampersand.\<close>

definition is_shell_meta :: "cu \<Rightarrow> bool" where
  "is_shell_meta c \<longleftrightarrow> c = 124 \<or> c = 62 \<or> c = 60 \<or> c = 38"

definition has_shell_meta :: "jstring \<Rightarrow> bool" where
  "has_shell_meta command = list_ex is_shell_meta command"

section \<open>The sandbox (sandbox.js)\<close>

text \<open>
  The limits after the defaults of the destructuring assignment.  What is passed to
  \<^verbatim>\<open>spawn\<close> (the words of the sanitized command, the working directory, and an
  environment in which \<^verbatim>\<open>maxMemory\<close> only becomes a \<^verbatim>\<open>NODE_OPTIONS\<close> hint) does not
  influence how the promise is settled and is left out; what the child does is given by
  the events below.
\<close>

record options =
  opt_timeout :: "nat option"
  opt_maxMemory :: "nat option"
  opt_maxBuffer :: "nat option"

record limits =
  timeout :: nat
  maxMemory :: nat
  maxBuffer :: nat

definition DEFAULT_TIMEOUT :: nat where "DEFAULT_TIMEOUT = 60000"
definition DEFAULT_MAX_MEMORY :: nat where "DEFAULT_MAX_MEMORY = 512 * 1024 * 1024"
definition DEFAULT_MAX_BUFFER :: nat where "DEFAULT_MAX_BUFFER = 10 * 1024 * 1024"

definition limits_of :: "options \<Rightarrow> limits" where
  "limits_of opts =
     \<lparr>timeout = (case opt_timeout opts of None \<Rightarrow> DEFAULT_TIMEOUT | Some t \<Rightarrow> t),
      maxMemory = (case opt_maxMemory opts of None \<Rightarrow> DEFAULT_MAX_MEMORY | Some m \<Rightarrow> m),
      maxBuffer = (case opt_maxBuffer opts of None \<Rightarrow> DEFAULT_MAX_BUFFER | Some b \<Rightarrow> b)\<rparr>"

datatype signal = SIGTERM | SIGKILL

text \<open>
  The \<^verbatim>\<open>ChildProcess\<close> object of Node.js, as far as the sandbox uses it.  \<^verbatim>\<open>kill\<close> delivers
  the signal while the process handle is open and then sets the property \<^verbatim>\<open>killed\<close>:
  the property says that a signal was sent, not that the process has ended.  The handle
  is closed when the process exits, before \<^verbatim>\<open>'exit'\<close> is emitted, and \<^verbatim>\<open>kill\<close> does
  nothing from then on.
\<close>

record child =
  exited :: bool
  cp_killed :: bool
  signals :: "signal list"

definition kill :: "signal \<Rightarrow> child \<Rightarrow> child" where
  "kill sig ch = (if exited ch then ch else ch\<lparr>cp_killed := True, signals := signals ch @ [sig]\<rparr>)"

text \<open>
  The errors that \<open>executeSandboxed\<close> raises, one constructor for each message:
  \<^verbatim>\<open>Command not allowed: <reason>\<close>, \<^verbatim>\<open>Command timeout after <timeout>ms\<close>,
  \<^verbatim>\<open>Output buffer exceeded <maxBuffer> bytes\<close>, \<^verbatim>\<open>Error buffer exceeded <maxBuffer> bytes\<close>,
  \<^verbatim>\<open>Process error: <message>\<close>, and an error thrown by the validator.
\<close>

datatype sandbox_error =
    CommandNotAllowed string
  | CommandTimeout nat
  | OutputBufferExceeded nat
  | ErrorBufferExceeded nat
  | ProcessError jstring
  | ValidatorThrew js_error

record exec_result =
  success :: bool
  stdout :: jstring
  stderr :: jstring
  exitCode :: int

text \<open>
  The closure of the promise executor: the three local variables, the two timers, the
  state of the promise (\<open>None\<close> while it is pending) and the child.
\<close>

record sandbox =
  stdout_acc :: jstring
  stderr_acc :: jstring
  killed :: bool
  timer_pending :: bool
  grace_pending :: bool
  settled :: "(sandbox_error + exec_result) option"
  proc :: child

text \<open>\<^verbatim>\<open>resolve\<close> and \<^verbatim>\<open>reject\<close>: a promise keeps its first settlement.\<close>

definition settle :: "sandbox_error + exec_result \<Rightarrow> sandbox \<Rightarrow> sandbox" where
  "settle x s = (case settled s of None \<Rightarrow> s\<lparr>settled := Some x\<rparr> | Some y \<Rightarrow> s)"

text \<open>
  What the event loop can deliver to the closure: the two timers, a chunk of either
  stream (already decoded by \<^verbatim>\<open>data.toString()\<close>), \<^verbatim>\<open>'exit'\<close> with its code and signal
  (either may be \<^verbatim>\<open>null\<close>), and \<^verbatim>\<open>'error'\<close>.
\<close>

datatype event =
    TimeoutFired
  | GraceFired
  | StdoutData jstring
  | StderrData jstring
  | Exit "int option" "string option"
  | ErrorEvent jstring

definition on_timeout :: "limits \<Rightarrow> sandbox \<Rightarrow> sandbox" where
  "on_timeout lim s =
     (if \<not> timer_pending s then s
      else (let s1 = s\<lparr>timer_pending := False\<rparr> in
            if \<not> killed s1 then
              settle (Inl (CommandTimeout (timeout lim)))
                (s1\<lparr>killed := True, proc := kill SIGTERM (proc s1), grace_pending := True\<rparr>)
            else s1))"

definition on_grace :: "sandbox \<Rightarrow> sandbox" where
  "on_grace s =
     (if \<not> grace_pending s then s
      else (let s1 = s\<lparr>grace_pending := False\<rparr> in
            if \<not> cp_killed (proc s1) then s1\<lparr>proc := kill SIGKILL (proc s1)\<rparr> else s1))"

definition on_stdout :: "limits \<Rightarrow> jstring \<Rightarrow> sandbox \<Rightarrow> sandbox" where
  "on_stdout lim d s =
     (let s1 = s\<lparr>stdout_acc := stdout_acc s @ d\<rparr> in
      if length (stdout_acc s1) > maxBuffer lim then
        (if \<not> killed s1 then
           settle (Inl (OutputBufferExceeded (maxBuffer lim)))
             (s1\<lparr>killed := True, proc := kill SIGTERM (proc s1), timer_pending := False\<rparr>)
         else s1)
      else s1)"

definition on_stderr :: "limits \<Rightarrow> jstring \<Rightarrow> sandbox \<Rightarrow> sandbox" where
  "on_stderr lim d s =
     (let s1 = s\<lparr>stderr_acc := stderr_acc s @ d\<rparr> in
      if length (stderr_acc s1) > maxBuffer lim then
        (if \<not> killed s1 then
           settle (Inl (ErrorBufferExceeded (maxBuffer lim)))
             (s1\<lparr>killed := True, proc := kill SIGTERM (proc s1), timer_pending := False\<rparr>)
         else s1)
      else s1)"

text \<open>\<^verbatim>\<open>code || (signal ? 1 : 0)\<close>\<close>

definition exit_code :: "int option \<Rightarrow> string option \<Rightarrow> int" where
  "exit_code code sig =
     (case code of
        Some c \<Rightarrow> if c \<noteq> 0 then c else (if sig \<noteq> None \<and> sig \<noteq> Some [] then 1 else 0)
      | None \<Rightarrow> (if sig \<noteq> None \<and> sig \<noteq> Some [] then 1 else 0))"

definition on_exit :: "limits \<Rightarrow> int option \<Rightarrow> string option \<Rightarrow> sandbox \<Rightarrow> sandbox" where
  "on_exit lim code sig s =
     (let s1 = s\<lparr>timer_pending := False, proc := (proc s)\<lparr>exited := True\<rparr>\<rparr> in
      if killed s1 then s1
      else settle (Inr \<lparr>success = (code = Some 0),
                        stdout = take (maxBuffer lim) (stdout_acc s1),
                        stderr = take (maxBuffer lim) (stderr_acc s1),
                        exitCode = exit_code code sig\<rparr>) s1)"

definition on_error :: "jstring \<Rightarrow> sandbox \<Rightarrow> sandbox" where
  "on_error msg s =
     (let s1 = s\<lparr>timer_pending := False\<rparr> in
      if \<not> killed s1 then settle (Inl (ProcessError msg)) (s1\<lparr>killed := True\<rparr>) else s1)"

fun handle :: "limits \<Rightarrow> sandbox \<Rightarrow> event \<Rightarrow> sandbox" where
  "handle lim s TimeoutFired = on_timeout lim s"
| "handle lim s GraceFired = on_grace s"
| "handle lim s (StdoutData d) = on_stdout lim d s"
| "handle lim s (StderrData d) = on_stderr lim d s"
| "handle lim s (Exit code sig) = on_exit lim code sig s"
| "handle lim s (ErrorEvent msg) = on_error msg s"

text \<open>The closure right after \<^verbatim>\<open>spawn\<close> and \<^verbatim>\<open>setTimeout\<close>.\<close>

definition spawned :: sandbox where
  "spawned =
     \<lparr>stdout_acc = [], stderr_acc = [], killed = False, timer_pending = True,
      grace_pending = False, settled = None,
      proc = \<lparr>exited = False, cp_killed = False, signals = []\<rparr>\<rparr>"

definition run :: "limits \<Rightarrow> event list \<Rightarrow> sandbox" where
  "run lim es = foldl (handle lim) spawned es"

text \<open>\<^verbatim>\<open>validation.reason || 'Unknown reason'\<close>\<close>

definition reason_text :: "validation \<Rightarrow> string" where
  "reason_text v = (case reason v of None \<Rightarrow> ''Unknown reason''
                    | Some r \<Rightarrow> if r = [] then ''Unknown reason'' else r)"

text \<open>
  \<open>executeSandboxed\<close> on the events that the event loop delivers to it.  The function is
  \<^verbatim>\<open>async\<close>: \<open>Some (Inl e)\<close> is a promise rejected with \<open>e\<close> (an exception at the \<^verbatim>\<open>await\<close>
  of the caller), \<open>Some (Inr r)\<close> is the returned result, \<open>None\<close> is a promise still pending
  after the events.
\<close>

text \<open>
  What holds of the closure after any sequence of events: the flag \<open>killed\<close> is set only
  together with a rejection, a pending timer means that nothing has happened yet, a settled
  promise means that the flag is set or the child has exited, and a returned result
  respects the buffer limit on each stream.
\<close>

definition sandbox_inv :: "limits \<Rightarrow> sandbox \<Rightarrow> bool" where
  "sandbox_inv lim s \<longleftrightarrow>
     (killed s \<longrightarrow> settled s \<noteq> None) \<and>
     (timer_pending s \<longrightarrow> \<not> killed s \<and> settled s = None \<and> \<not> exited (proc s)) \<and>
     (settled s \<noteq> None \<longrightarrow> killed s \<or> exited (proc s)) \<and>
     (\<forall>r. settled s = Some (Inr r) \<longrightarrow>
          length (stdout r) \<le> maxBuffer lim \<and> length (stderr r) \<le> maxBuffer lim)"

definition executeSandboxed ::
  "jstring \<Rightarrow> options \<Rightarrow> event list \<Rightarrow> (sandbox_error + exec_result) option" where
  "executeSandboxed command opts es =
     (case validateCommand command of
        Inl e \<Rightarrow> Some (Inl (ValidatorThrew e))
      | Inr validation \<Rightarrow>
          if \<not> allowed validation then Some (Inl (CommandNotAllowed (reason_text validation)))
          else settled (run (limits_of opts) es))"

section \<open>The handler of POST /create-pr (index.js)\<close>

datatype json = JUndefined | JNull | JBool bool | JNumber int | JString jstring

text \<open>
  The body of the request.  \<^verbatim>\<open>branchName\<close>, \<^verbatim>\<open>commitMessage\<close> and \<^verbatim>\<open>repoPath\<close> are strings
  when they are present; \<^verbatim>\<open>confirm\<close> is any value, since the handler compares it with
  \<^verbatim>\<open>true\<close> by \<^verbatim>\<open>!==\<close>.
\<close>

record pr_body =
  req_branchName :: "jstring option"
  req_commitMessage :: "jstring option"
  req_repoPath :: "jstring option"
  req_confirm :: json

record preview =
  branchName :: jstring
  commitMessage :: jstring
  stagedFiles :: "jstring list"
  operations :: "jstring list"

text \<open>\<^verbatim>\<open>s.split('\n')\<close>\<close>

fun split_on :: "cu \<Rightarrow> jstring \<Rightarrow> jstring list" where
  "split_on sep [] = [[]]"
| "split_on sep (c # s) =
     (if c = sep then [] # split_on sep s
      else (case split_on sep s of [] \<Rightarrow> [[c]] | p # ps \<Rightarrow> (c # p) # ps))"

text \<open>\<^verbatim>\<open>parts.join(sep)\<close> for a one-character separator, to say what a split gives.\<close>

fun join_on :: "cu \<Rightarrow> jstring list \<Rightarrow> jstring" where
  "join_on sep [] = []"
| "join_on sep [p] = p"
| "join_on sep (p # q # ps) = p @ sep # join_on sep (q # ps)"

definition make_preview :: "jstring \<Rightarrow> jstring \<Rightarrow> jstring \<Rightarrow> preview" where
  "make_preview branch message stagedChanges =
     \<lparr>branchName = branch,
      commitMessage = message,
      stagedFiles = (if stagedChanges \<noteq> [] then split_on 10 stagedChanges else []),
      operations = [js ''Would create branch: '' @ branch,
                    js ''Would commit with message: '' @ message,
                    js ''Would push to remote (if configured)'']\<rparr>"

text \<open>\<^verbatim>\<open>commitMessage.replace(/"/g, '\\"')\<close>\<close>

definition escape_quotes :: "jstring \<Rightarrow> jstring" where
  "escape_quotes m = concat (map (\<lambda>c. if c = 34 then [92, 34] else [c]) m)"

text \<open>
  The answers of the handler: status 400 with an error text, status 400 with the request
  for confirmation and a preview, the dry-run answer with a preview, the answer after the
  git commands (with the flag \<^verbatim>\<open>pushed\<close>; its made-up pull-request address holds the
  current time and is left out), and status 500 after a git command that threw.
\<close>

datatype response =
    BadRequest string
  | ConfirmationRequired preview
  | DryRun preview
  | Created bool
  | GitFailed sandbox_error

text \<open>
  \<open>logRequest\<close> appends one line to the log file of the day, with the body of the request
  and either the error or the value of \<^verbatim>\<open>responseData\<close>, which is \<^verbatim>\<open>null\<close> unless the handler
  has assigned it.  A failure of the append is caught and reported on the console.
\<close>

record log_entry =
  log_request :: pr_body
  log_response :: "response option"
  log_error :: "sandbox_error option"

definition logRequest :: "pr_body \<Rightarrow> response option \<Rightarrow> sandbox_error option \<Rightarrow> log_entry" where
  "logRequest body responseData error =
     \<lparr>log_request = body,
      log_response = (if error \<noteq> None then None else responseData),
      log_error = error\<rparr>"

text \<open>
  What the handler finds around it: the configuration flag, the results of the two calls
  of \<^verbatim>\<open>fs.existsSync\<close> (for the resolved path and for its \<^verbatim>\<open>.git\<close>), and for each command
  that it passes to the sandbox the events that the event loop delivers during that call
  (none for a command that is not listed).
\<close>

record server =
  dryRun :: bool
  path_exists :: bool
  git_dir_exists :: bool
  delivered :: "(jstring \<times> event list) list"

definition events_for :: "server \<Rightarrow> jstring \<Rightarrow> event list" where
  "events_for sv command = (case map_of (delivered sv) command of None \<Rightarrow> [] | Some es \<Rightarrow> es)"

text \<open>\<^verbatim>\<open>await executeSandboxed(command, {cwd: resolvedPath, timeout: t})\<close>\<close>

definition sandbox_call :: "server \<Rightarrow> jstring \<Rightarrow> nat \<Rightarrow> (sandbox_error + exec_result) option" where
  "sandbox_call sv command t =
     executeSandboxed command \<lparr>opt_timeout = Some t, opt_maxMemory = None, opt_maxBuffer = None\<rparr>
       (events_for sv command)"

text \<open>
  What the handler has done: its answer (\<open>None\<close> while it still awaits the last sandbox
  call), the commands that it has passed to \<open>executeSandboxed\<close>, in their order, and the
  lines that it has appended to the log file (the \<^verbatim>\<open>finally\<close> block runs on every way
  out, also on a \<^verbatim>\<open>return\<close>).
\<close>

record handled =
  response :: "response option"
  calls :: "jstring list"
  logged :: "log_entry list"

definition awaiting :: "jstring list \<Rightarrow> handled" where
  "awaiting cs = \<lparr>response = None, calls = cs, logged = []\<rparr>"

definition answered ::
  "pr_body \<Rightarrow> response \<Rightarrow> response option \<Rightarrow> sandbox_error option \<Rightarrow> jstring list \<Rightarrow> handled" where
  "answered body r responseData error cs =
     \<lparr>response = Some r, calls = cs, logged = [logRequest body responseData error]\<rparr>"

text \<open>The execution branch, from its last command to its first.\<close>

definition push_stage :: "server \<Rightarrow> pr_body \<Rightarrow> jstring \<Rightarrow> jstring list \<Rightarrow> handled" where
  "push_stage sv body branch cs =
     (let c = js ''git push -u origin '' @ branch in
      case sandbox_call sv c 30000 of
        None \<Rightarrow> awaiting (cs @ [c])
      | Some (Inl pushError) \<Rightarrow> answered body (Created False) (Some (Created False)) None (cs @ [c])
      | Some (Inr r) \<Rightarrow> answered body (Created True) (Some (Created True)) None (cs @ [c]))"

definition commit_stage ::
  "server \<Rightarrow> pr_body \<Rightarrow> jstring \<Rightarrow> jstring \<Rightarrow> jstring list \<Rightarrow> handled" where
  "commit_stage sv body branch message cs =
     (let c = js ''git commit -m '' @ [34] @ escape_quotes message @ [34] in
      case sandbox_call sv c 10000 of
        None \<Rightarrow> awaiting (cs @ [c])
      | Some (Inl gitError) \<Rightarrow> answered body (GitFailed gitError) None (Some gitError) (cs @ [c])
      | Some (Inr r) \<Rightarrow> push_stage sv body branch (cs @ [c]))"

definition add_stage ::
  "server \<Rightarrow> pr_body \<Rightarrow> jstring \<Rightarrow> jstring \<Rightarrow> jstring \<Rightarrow> jstring list \<Rightarrow> handled" where
  "add_stage sv body branch message stagedChanges cs =
     (if stagedChanges \<noteq> [] then
        (let c = js ''git add .'' in
         case sandbox_call sv c 10000 of
           None \<Rightarrow> awaiting (cs @ [c])
         | Some (Inl gitError) \<Rightarrow> answered body (GitFailed gitError) None (Some gitError) (cs @ [c])
         | Some (Inr r) \<Rightarrow> commit_stage sv body branch message (cs @ [c]))
      else commit_stage sv body branch message cs)"

definition checkout_stage ::
  "server \<Rightarrow> pr_body \<Rightarrow> jstring \<Rightarrow> jstring \<Rightarrow> jstring \<Rightarrow> jstring list \<Rightarrow> handled" where
  "checkout_stage sv body branch message stagedChanges cs =
     (let c = js ''git checkout -b '' @ branch in
      case sandbox_call sv c 10000 of
        None \<Rightarrow> awaiting (cs @ [c])
      | Some (Inl gitError) \<Rightarrow> answered body (GitFailed gitError) None (Some gitError) (cs @ [c])
      | Some (Inr r) \<Rightarrow> add_stage sv body branch message stagedChanges (cs @ [c]))"

text \<open>
  The handler.  \<^verbatim>\<open>!branchName || !commitMessage\<close> holds of a field that is absent or
  empty.  An exception of the call that reads the staged files is swallowed and leaves
  \<^verbatim>\<open>stagedChanges\<close> empty.
\<close>

definition create_pr :: "server \<Rightarrow> pr_body \<Rightarrow> handled" where
  "create_pr sv body =
     (let required = answered body (BadRequest ''branchName and commitMessage are required'')
                       None None [] in
      case req_branchName body of
        None \<Rightarrow> required
      | Some branch \<Rightarrow>
          (case req_commitMessage body of
             None \<Rightarrow> required
           | Some message \<Rightarrow>
               if branch = [] \<or> message = [] then required
               else if \<not> path_exists sv then
                 answered body (BadRequest ''Repository path does not exist'') None None []
               else if \<not> git_dir_exists sv then
                 answered body (BadRequest ''Not a git repository'') None None []
               else
                 (let d = js ''git diff --cached --name-only'' in
                  case sandbox_call sv d 5000 of
                    None \<Rightarrow> awaiting [d]
                  | Some outcome \<Rightarrow>
                      (let stagedChanges =
                             (case outcome of Inr result \<Rightarrow> trim (stdout result) | Inl err \<Rightarrow> []);
                           requiresConfirmation = \<not> dryRun sv;
                           pv = make_preview branch message stagedChanges in
                       if requiresConfirmation \<and> req_confirm body \<noteq> JBool True then
                         answered body (ConfirmationRequired pv) None None [d]
                       else if dryRun sv \<or> req_confirm body \<noteq> JBool True then
                         answered body (DryRun pv) (Some (DryRun pv)) None [d]
                       else checkout_stage sv body branch message stagedChanges [d]))))"

section \<open>The key store (keychain.js)\<close>

text \<open>
  The module variable \<^verbatim>\<open>keytar\<close> is \<^verbatim>\<open>null\<close> before the first load, \<^verbatim>\<open>false\<close> after a
  failed import and the module after a successful one.
\<close>

datatype keytar_slot = NotLoaded | LoadFailed | Module

text \<open>
  A line of \<^verbatim>\<open>console.warn\<close> or \<^verbatim>\<open>console.error\<close>: its fixed text, without the warning
  sign that starts the first warning and without the error object that follows
  \<^verbatim>\<open>Failed to store key in keychain:\<close>.
\<close>

datatype log_line = Warning string | ErrorLine string

record keychain =
  keytar :: keytar_slot
  keychainAvailable :: bool
  entry :: "jstring option"
  console :: "log_line list"

text \<open>
  What the platform does: whether \<^verbatim>\<open>import('keytar')\<close> succeeds (it fails when the package
  is not installed or its native binding does not load on the platform), and the error
  message with which \<^verbatim>\<open>setPassword\<close> throws, if it does.
\<close>

record platform =
  import_succeeds :: bool
  setPassword_throws :: "jstring option"

text \<open>\<open>loadKeytar\<close>, returning whether its result is truthy, and the new module state.\<close>

definition loadKeytar :: "platform \<Rightarrow> keychain \<Rightarrow> bool \<times> keychain" where
  "loadKeytar pf k =
     (case keytar k of
        Module \<Rightarrow> (True, k)
      | LoadFailed \<Rightarrow> (False, k)
      | NotLoaded \<Rightarrow>
          if import_succeeds pf then (True, k\<lparr>keytar := Module, keychainAvailable := True\<rparr>)
          else (False, k\<lparr>keytar := LoadFailed, keychainAvailable := False\<rparr>))"

text \<open>The module state when the file is loaded, with an empty keychain entry.\<close>

definition initial_keychain :: keychain where
  "initial_keychain = \<lparr>keytar = NotLoaded, keychainAvailable = False, entry = None, console = []\<rparr>"

datatype key_error = InvalidApiKey | KeychainStorageFailed jstring

definition storeApiKey :: "platform \<Rightarrow> json \<Rightarrow> keychain \<Rightarrow> (key_error + bool) \<times> keychain" where
  "storeApiKey pf key k =
     (case key of
        JString secret \<Rightarrow>
          if secret = [] then (Inl InvalidApiKey, k)
          else (case loadKeytar pf k of
                  (keytarInstance, k1) \<Rightarrow>
                    if keychainAvailable k1 \<and> keytarInstance then
                      (case setPassword_throws pf of
                         None \<Rightarrow> (Inr True, k1\<lparr>entry := Some secret\<rparr>)
                       | Some msg \<Rightarrow>
                           (Inl (KeychainStorageFailed msg),
                            k1\<lparr>console := console k1 @
                                  [ErrorLine ''Failed to store key in keychain:'']\<rparr>))
                    else
                      (Inr False,
                       k1\<lparr>console := console k1 @
                             [Warning ''Keychain not available. Please set OPENAI_API_KEY environment variable.'',
                              Warning ''   To enable keychain storage, install: npm install keytar'']\<rparr>))
      | _ \<Rightarrow> (Inl InvalidApiKey, k))"

section \<open>Properties of the string operations\<close>

lemma set_trim_subset: "set (trim s) \<subseteq> set s"
proof -
  have "set (trim s) \<subseteq> set (rev (dropWhile is_ws s))"
    unfolding trim_def using set_dropWhileD by fastforce
  also have "\<dots> \<subseteq> set s"
    using set_dropWhileD by fastforce
  finally show ?thesis .
qed

lemma in_set_dropWhile: "c \<in> set s \<Longrightarrow> \<not> P c \<Longrightarrow> c \<in> set (dropWhile P s)"
  by (induction s) auto

lemma in_set_trim: "c \<in> set s \<Longrightarrow> \<not> is_ws c \<Longrightarrow> c \<in> set (trim s)"
  unfolding trim_def by (simp add: in_set_dropWhile)

lemma trim_Nil: "trim [] = []"
  by (simp add: trim_def)

lemma set_split_first_subset: "set (split_first x s) \<subseteq> set s"
  unfolding split_first_def using set_takeWhileD by fastforce

lemma sep_notin_split_first: "x \<notin> set (split_first x s)"
  unfolding split_first_def using set_takeWhileD by fastforce

lemma split_first_id: "x \<notin> set s \<Longrightarrow> split_first x s = s"
  unfolding split_first_def by (induction s) auto

lemma shell_meta_not_ws: "is_shell_meta c \<Longrightarrow> \<not> is_ws c"
  by (auto simp: is_shell_meta_def is_ws_def)

lemma sanitize_no_meta: "is_shell_meta c \<Longrightarrow> c \<notin> set (sanitize command)"
proof -
  assume m: "is_shell_meta c"
  let ?a = "split_first 124 command"
  let ?b = "split_first 62 ?a"
  let ?d = "split_first 60 ?b"
  let ?e = "split_first 38 ?d"
  have e: "set ?e \<subseteq> set ?d" and d: "set ?d \<subseteq> set ?b" and b: "set ?b \<subseteq> set ?a"
    by (rule set_split_first_subset)+
  have "124 \<notin> set ?a" "62 \<notin> set ?b" "60 \<notin> set ?d" "38 \<notin> set ?e"
    by (rule sep_notin_split_first)+
  with e d b have "124 \<notin> set ?e" "62 \<notin> set ?e" "60 \<notin> set ?e" "38 \<notin> set ?e"
    by blast+
  with m have "c \<notin> set ?e" by (auto simp: is_shell_meta_def)
  then show ?thesis
    unfolding sanitize_def using set_trim_subset by blast
qed

lemma sanitize_differs:
  assumes "has_shell_meta command"
  shows "sanitize command \<noteq> trim command"
proof -
  from assms obtain c where c: "c \<in> set command" "is_shell_meta c"
    by (auto simp: has_shell_meta_def list_ex_iff)
  then have "c \<in> set (trim command)"
    by (simp add: in_set_trim shell_meta_not_ws)
  moreover have "c \<notin> set (sanitize command)"
    using c(2) by (rule sanitize_no_meta)
  ultimately show ?thesis by metis
qed

lemma sanitize_plain:
  assumes "\<not> has_shell_meta command"
  shows "sanitize command = trim command"
proof -
  have "124 \<notin> set command" "62 \<notin> set command" "60 \<notin> set command" "38 \<notin> set command"
    using assms by (auto simp: has_shell_meta_def list_ex_iff is_shell_meta_def)
  then show ?thesis by (simp add: sanitize_def split_first_id)
qed

lemma trim_prefix: "\<not> is_ws c \<Longrightarrow> \<exists>t. c # s = trim (c # s) @ t"
proof -
  assume "\<not> is_ws c"
  then have "trim (c # s) = rev (dropWhile is_ws (rev (c # s)))"
    by (simp add: trim_def)
  moreover have "rev (c # s) = takeWhile is_ws (rev (c # s)) @ dropWhile is_ws (rev (c # s))"
    by simp
  then have "c # s = rev (dropWhile is_ws (rev (c # s))) @ rev (takeWhile is_ws (rev (c # s)))"
    by (metis rev_append rev_rev_ident)
  ultimately show ?thesis by metis
qed

lemma rtrim_append:
  "rev (dropWhile is_ws (rev (a @ b))) =
     (if \<forall>c\<in>set b. is_ws c then rev (dropWhile is_ws (rev a))
      else a @ rev (dropWhile is_ws (rev b)))"
  by (simp add: dropWhile_append)

lemma rtrim_keeps_head: "\<not> P x \<Longrightarrow> \<exists>w. rev (dropWhile P (rev (x # u))) = x # w"
  by (simp add: dropWhile_append) (metis rev_rev_ident)

lemma trim_idem: "trim (trim s) = trim s"
proof (cases "dropWhile is_ws s")
  case Nil
  have "trim s = []" unfolding trim_def Nil by simp
  then show ?thesis by (simp add: trim_Nil)
next
  case (Cons x u)
  have "dropWhile is_ws s \<noteq> []" unfolding Cons by simp
  then have "\<not> is_ws (hd (dropWhile is_ws s))" by (rule hd_dropWhile)
  then have nx: "\<not> is_ws x" unfolding Cons by simp
  obtain w where w: "rev (dropWhile is_ws (rev (x # u))) = x # w"
    using rtrim_keeps_head [of is_ws x u] nx by blast
  have ts: "trim s = x # w" unfolding trim_def Cons by (rule w)
  have "trim (x # w) = rev (dropWhile is_ws (rev (x # w)))"
    using nx by (simp add: trim_def)
  also have "rev (x # w) = dropWhile is_ws (rev (x # u))"
    using w by (metis rev_rev_ident)
  also have "rev (dropWhile is_ws (dropWhile is_ws (rev (x # u)))) = x # w"
    unfolding dropWhile_idem by (rule w)
  finally show ?thesis by (simp add: ts)
qed

section \<open>Properties of the matcher\<close>

lemma match_here_append: "Eol \<notin> set r \<Longrightarrow> match_here r s \<Longrightarrow> match_here r (s @ t)"
proof (induction r s rule: match_here.induct)
  case (5 k r)
  then have "match_here r t" by simp
  then show ?case by (cases t) simp_all
qed auto

lemma match_here_imp_test: "match_here r s \<Longrightarrow> regex_test r s"
  by (cases s) simp_all

lemma regex_test_append: "Eol \<notin> set r \<Longrightarrow> regex_test r s \<Longrightarrow> regex_test r (s @ t)"
proof (induction s)
  case Nil
  then have "match_here r ([] @ t)" using match_here_append by fastforce
  then show ?case by (simp add: match_here_imp_test)
next
  case (Cons c s)
  then show ?case using match_here_append [of r "c # s" t] by auto
qed

lemma regex_test_first:
  "regex_test (One (Ch p) # r) s \<Longrightarrow> \<exists>c\<in>set s. canonicalize c = canonicalize p"
  by (induction s) auto

lemma pipe_canonical: "canonicalize c = canonicalize 124 \<Longrightarrow> c = 124"
  by (auto simp: canonicalize_def split: if_splits)

lemma dangerous_shape:
  "\<forall>p\<in>set DANGEROUS_PATTERNS. Eol \<notin> set p \<or> (\<exists>r. p = One (Ch 124) # r)"
  by (simp add: DANGEROUS_PATTERNS_def lit_def)

lemma not_dangerous_empty: "\<not> matches_dangerous []"
  by (simp add: matches_dangerous_def DANGEROUS_PATTERNS_def lit_def)

section \<open>The validator\<close>

lemmas validator_defs =
  js_def lit_def is_ws_def is_line_terminator_def canonicalize_def trim_def split_first_def
  sanitize_def validateCommand_def isCommandAllowed_def matches_dangerous_def
  DANGEROUS_PATTERNS_def ALLOWED_COMMANDS_def object_prototype_def get_property_def
  some_arg_matches_def has_shell_meta_def is_shell_meta_def

lemma isCommandAllowed_dangerous:
  "matches_dangerous command \<Longrightarrow> isCommandAllowed command = Inr False"
  by (simp add: isCommandAllowed_def)

lemma dangerous_reason:
  assumes "matches_dangerous (trim command)"
  shows "validateCommand command =
           Inr \<lparr>allowed = False, sanitized = None,
                reason = Some (if has_shell_meta command
                               then ''Shell redirection/piping not allowed''
                               else ''Command not in allowlist'')\<rparr>"
proof -
  have ne: "command \<noteq> []"
    using assms not_dangerous_empty by (auto simp: trim_Nil)
  show ?thesis
  proof (cases "has_shell_meta command")
    case True
    then have "sanitize command \<noteq> trim command" by (rule sanitize_differs)
    with ne True show ?thesis by (simp add: validateCommand_def)
  next
    case False
    then have s: "sanitize command = trim command" by (rule sanitize_plain)
    then have "isCommandAllowed (sanitize command) = Inr False"
      using assms by (simp add: isCommandAllowed_dangerous)
    with s ne False show ?thesis by (simp add: validateCommand_def)
  qed
qed

lemma rejection_reason:
  assumes "validateCommand command = Inr v" "\<not> allowed v"
  shows "reason v = Some (if command = [] then ''Invalid command''
                          else if has_shell_meta command
                               then ''Shell redirection/piping not allowed''
                               else ''Command not in allowlist'')"
proof (cases "command = []")
  case True
  with assms show ?thesis by (auto simp: validateCommand_def)
next
  case ne: False
  show ?thesis
  proof (cases "has_shell_meta command")
    case True
    then have "sanitize command \<noteq> trim command" by (rule sanitize_differs)
    with ne True assms show ?thesis by (auto simp: validateCommand_def)
  next
    case False
    then have "sanitize command = trim command" by (rule sanitize_plain)
    with ne False assms show ?thesis
      by (auto simp: validateCommand_def split: sum.splits if_splits)
  qed
qed

lemma git_status_allowed:
  "validateCommand (js ''git status'') =
     Inr \<lparr>allowed = True, sanitized = Some (js ''git status''), reason = None\<rparr>"
  by (simp add: validator_defs)

lemma echo_su_allowed:
  "validateCommand (js ''echo su '') =
     Inr \<lparr>allowed = True, sanitized = Some (js ''echo su''), reason = None\<rparr>"
  by (simp add: validator_defs)

lemma echo_su_dangerous: "matches_dangerous (js ''echo su '')"
  by (simp add: validator_defs)

lemma rm_rf_dangerous: "matches_dangerous (js ''rm -rf /tmp'')"
  by (simp add: validator_defs)

lemma rm_rf_rejected:
  "validateCommand (js ''rm -rf /tmp'') =
     Inr \<lparr>allowed = False, sanitized = None, reason = Some ''Command not in allowlist''\<rparr>"
  by (simp add: validator_defs)

lemma frobnicate_not_dangerous: "\<not> matches_dangerous (js ''frobnicate'')"
  by (simp add: validator_defs)

lemma frobnicate_rejected:
  "validateCommand (js ''frobnicate'') =
     Inr \<lparr>allowed = False, sanitized = None, reason = Some ''Command not in allowlist''\<rparr>"
  by (simp add: validator_defs)

lemma echo_rm_dangerous: "matches_dangerous (trim (js ''echo rm -rf /''))"
  by (simp add: validator_defs)

lemma deploy_plain: "\<not> has_shell_meta (js ''deploy.js'')"
  by (simp add: validator_defs)

lemma deploy_not_dangerous: "\<not> matches_dangerous (js ''deploy.js'')"
  by (simp add: validator_defs)

lemma rtrim_id: "b \<noteq> [] \<Longrightarrow> \<not> is_ws (last b) \<Longrightarrow> rev (dropWhile is_ws (rev b)) = b"
  by (cases b rule: rev_cases) simp_all

lemma trim_word_args:
  assumes "b \<noteq> []" "\<forall>c\<in>set b. \<not> is_ws c"
  shows "trim (b @ 32 # s) = b \<or> (\<exists>t. trim (b @ 32 # s) = b @ 32 # t)"
proof -
  obtain x b' where b: "b = x # b'" using assms(1) by (cases b) auto
  with assms(2) have "\<not> is_ws x" by simp
  then have t: "trim (b @ 32 # s) = rev (dropWhile is_ws (rev (b @ ([32] @ s))))"
    unfolding trim_def b by simp
  have "last b \<in> set b" using assms(1) by simp
  with assms have keep: "rev (dropWhile is_ws (rev b)) = b" by (intro rtrim_id) auto
  note outer = rtrim_append [of b "[32] @ s"]
  note inner = rtrim_append [of "[32]" s]
  show ?thesis
  proof (cases "\<forall>c\<in>set s. is_ws c")
    case True
    then have "\<forall>c\<in>set ([32] @ s). is_ws c" by (simp add: is_ws_def)
    with outer keep have "trim (b @ 32 # s) = b"
      unfolding t by presburger
    then show ?thesis by simp
  next
    case False
    then have f: "\<not> (\<forall>c\<in>set ([32] @ s). is_ws c)" by simp
    with outer have "trim (b @ 32 # s) = b @ rev (dropWhile is_ws (rev ([32] @ s)))"
      unfolding t by presburger
    moreover from inner False
    have "rev (dropWhile is_ws (rev ([32] @ s))) = [32] @ rev (dropWhile is_ws (rev s))"
      by presburger
    ultimately show ?thesis by simp
  qed
qed

lemma split_ws_word: "\<forall>c\<in>set b. \<not> is_ws c \<Longrightarrow> split_ws b = [b]"
  by (induction b) simp_all

lemma split_ws_word_args:
  "\<forall>c\<in>set b. \<not> is_ws c \<Longrightarrow> split_ws (b @ 32 # t) = b # split_ws (dropWhile is_ws t)"
  by (induction b) (simp_all add: is_ws_def)

lemma split_ws_command:
  assumes "b \<noteq> []" "\<forall>c\<in>set b. \<not> is_ws c"
  shows "\<exists>rest. split_ws (trim (b @ 32 # s)) = b # rest"
  using trim_word_args [OF assms, of s]
proof (elim disjE exE)
  assume e: "trim (b @ 32 # s) = b"
  show ?thesis unfolding e split_ws_word [OF assms(2)] by blast
next
  fix t assume e: "trim (b @ 32 # s) = b @ 32 # t"
  show ?thesis unfolding e split_ws_word_args [OF assms(2)] by blast
qed

lemma empty_entries:
  "(b, []) \<in> set ALLOWED_COMMANDS \<Longrightarrow>
   b = ''node'' \<or> b = ''pytest'' \<or> b = ''ls'' \<or> b = ''dir'' \<or> b = ''pwd'' \<or> b = ''echo''"
  by (simp add: ALLOWED_COMMANDS_def)

lemma empty_entry_word:
  assumes "(b, []) \<in> set ALLOWED_COMMANDS"
  shows "js b \<noteq> [] \<and> (\<forall>c\<in>set (js b). \<not> is_ws c) \<and> \<not> has_shell_meta (js b)"
  using empty_entries [OF assms]
  by (elim disjE) (simp_all add: js_def is_ws_def has_shell_meta_def is_shell_meta_def)

lemma empty_entry_property:
  assumes "(b, []) \<in> set ALLOWED_COMMANDS"
  shows "get_property (js b) = ArgList []"
  using empty_entries [OF assms]
  by (elim disjE) (simp_all add: get_property_def ALLOWED_COMMANDS_def js_def)

lemma dangerous_skip_node: "\<forall>p\<in>set DANGEROUS_PATTERNS. regex_test p (js ''node'' @ 32 # s) = regex_test p s"
  by (simp add: DANGEROUS_PATTERNS_def lit_def js_def canonicalize_def)

lemma dangerous_skip_pytest: "\<forall>p\<in>set DANGEROUS_PATTERNS. regex_test p (js ''pytest'' @ 32 # s) = regex_test p s"
  by (simp add: DANGEROUS_PATTERNS_def lit_def js_def canonicalize_def)

lemma dangerous_skip_ls: "\<forall>p\<in>set DANGEROUS_PATTERNS. regex_test p (js ''ls'' @ 32 # s) = regex_test p s"
  by (simp add: DANGEROUS_PATTERNS_def lit_def js_def canonicalize_def)

lemma dangerous_skip_dir: "\<forall>p\<in>set DANGEROUS_PATTERNS. regex_test p (js ''dir'' @ 32 # s) = regex_test p s"
  by (simp add: DANGEROUS_PATTERNS_def lit_def js_def canonicalize_def)

lemma dangerous_skip_pwd: "\<forall>p\<in>set DANGEROUS_PATTERNS. regex_test p (js ''pwd'' @ 32 # s) = regex_test p s"
  by (simp add: DANGEROUS_PATTERNS_def lit_def js_def canonicalize_def)

lemma dangerous_skip_echo: "\<forall>p\<in>set DANGEROUS_PATTERNS. regex_test p (js ''echo'' @ 32 # s) = regex_test p s"
  by (simp add: DANGEROUS_PATTERNS_def lit_def js_def canonicalize_def)

lemma dangerous_skip_entry:
  assumes "(b, []) \<in> set ALLOWED_COMMANDS" "p \<in> set DANGEROUS_PATTERNS"
  shows "regex_test p (js b @ 32 # s) = regex_test p s"
proof -
  consider "b = ''node''" | "b = ''pytest''" | "b = ''ls''" | "b = ''dir''" | "b = ''pwd''"
    | "b = ''echo''"
    using empty_entries [OF assms(1)] by blast
  then show ?thesis
  proof cases
    case 1
    show ?thesis unfolding 1 using assms(2) by (rule dangerous_skip_node [THEN bspec])
  next
    case 2
    show ?thesis unfolding 2 using assms(2) by (rule dangerous_skip_pytest [THEN bspec])
  next
    case 3
    show ?thesis unfolding 3 using assms(2) by (rule dangerous_skip_ls [THEN bspec])
  next
    case 4
    show ?thesis unfolding 4 using assms(2) by (rule dangerous_skip_dir [THEN bspec])
  next
    case 5
    show ?thesis unfolding 5 using assms(2) by (rule dangerous_skip_pwd [THEN bspec])
  next
    case 6
    show ?thesis unfolding 6 using assms(2) by (rule dangerous_skip_echo [THEN bspec])
  qed
qed

lemma entry_not_dangerous:
  assumes "(b, []) \<in> set ALLOWED_COMMANDS" "\<not> has_shell_meta s" "\<not> matches_dangerous s"
  shows "\<not> matches_dangerous (trim (js b @ 32 # s))"
proof
  let ?cmd = "js b @ 32 # s"
  note w = empty_entry_word [OF assms(1)]
  assume "matches_dangerous (trim ?cmd)"
  then obtain p where p: "p \<in> set DANGEROUS_PATTERNS" and m: "regex_test p (trim ?cmd)"
    by (auto simp: matches_dangerous_def list_ex_iff)
  obtain x b' where b: "js b = x # b'" using w by (cases "js b") auto
  with w have "\<not> is_ws x" by simp
  then obtain t where t: "?cmd = trim ?cmd @ t"
    using trim_prefix [of x "b' @ 32 # s"] by (auto simp: b)
  from p dangerous_shape consider "Eol \<notin> set p" | r where "p = One (Ch 124) # r"
    by blast
  then show False
  proof cases
    case 1
    from 1 m have "regex_test p (trim ?cmd @ t)" by (rule regex_test_append)
    with t have "regex_test p ?cmd" by simp
    with dangerous_skip_entry [OF assms(1) p] have "regex_test p s" by simp
    with p assms(3) show False by (auto simp: matches_dangerous_def list_ex_iff)
  next
    case 2
    with m obtain c where "c \<in> set (trim ?cmd)" "canonicalize c = canonicalize 124"
      using regex_test_first by blast
    then have "124 \<in> set ?cmd" using pipe_canonical set_trim_subset by blast
    then have "124 \<in> set (js b) \<or> 124 \<in> set s" by auto
    with assms(2) w show False by (auto simp: has_shell_meta_def list_ex_iff is_shell_meta_def)
  qed
qed

lemma entry_command_plain:
  assumes "(b, []) \<in> set ALLOWED_COMMANDS" "\<not> has_shell_meta s"
  shows "\<not> has_shell_meta (js b @ 32 # s)"
  using empty_entry_word [OF assms(1)] assms(2)
  by (auto simp: has_shell_meta_def list_ex_iff is_shell_meta_def)

lemma node_entry: "(''node'', []) \<in> set ALLOWED_COMMANDS"
  by (simp add: ALLOWED_COMMANDS_def)

lemma trim_node_deploy: "trim (js ''node'' @ 32 # js ''deploy.js'') = js ''node deploy.js''"
  by (simp add: js_def trim_def is_ws_def)

lemma inherited_function_allowed:
  "validateCommand (js ''toString'') =
     Inr \<lparr>allowed = True, sanitized = Some (js ''toString''), reason = None\<rparr>"
  by (simp add: validator_defs)

lemma inherited_property_throws: "validateCommand (js ''constructor'') = Inl TypeError"
  by (simp add: validator_defs)

text \<open>
  C4, as the code has it.  The denylist is applied to the command after \<open>trim\<close>: a command
  whose trimmed form matches a dangerous pattern is rejected, whatever the allowlist says
  about its executable and arguments.
\<close>

theorem denylist_rejects_trimmed_command:
  assumes "matches_dangerous (trim command)"
  shows "\<exists>why. validateCommand command =
           Inr \<lparr>allowed = False, sanitized = None, reason = Some why\<rparr>"
  using dangerous_reason [OF assms] by blast

theorem denylist_rejects_trimmed_command_witness:
  "matches_dangerous (trim (js ''echo rm -rf /'')) \<and>
   (\<exists>why. validateCommand (js ''echo rm -rf /'') =
      Inr \<lparr>allowed = False, sanitized = None, reason = Some why\<rparr>)"
  using denylist_rejects_trimmed_command [OF echo_rm_dangerous] echo_rm_dangerous by simp

text \<open>
  C4 as stated fails: with its trailing blank the command \<^verbatim>\<open>echo su \<close> matches the
  pattern \<^verbatim>\<open>/su\s+/i\<close>, and it is allowed, because the pattern is tried on the trimmed
  command \<^verbatim>\<open>echo su\<close>.
\<close>

theorem denylist_match_allowed_counterexample:
  "matches_dangerous (js ''echo su '') \<and>
   validateCommand (js ''echo su '') =
     Inr \<lparr>allowed = True, sanitized = Some (js ''echo su''), reason = None\<rparr>"
  using echo_su_dangerous echo_su_allowed by simp

text \<open>
  C5: a command that contains one of the characters \<^verbatim>\<open>|\<close>, \<^verbatim>\<open>>\<close>, \<^verbatim>\<open><\<close>, \<^verbatim>\<open>&\<close> is rejected
  with the reason for shell redirection and piping, whatever stands before that character.
\<close>

theorem shell_metacharacter_rejected:
  assumes "has_shell_meta command"
  shows "validateCommand command =
           Inr \<lparr>allowed = False, sanitized = None,
                reason = Some ''Shell redirection/piping not allowed''\<rparr>"
proof -
  from assms have "command \<noteq> []" by (auto simp: has_shell_meta_def)
  moreover from assms have "sanitize command \<noteq> trim command" by (rule sanitize_differs)
  ultimately show ?thesis by (simp add: validateCommand_def)
qed

theorem shell_metacharacter_rejected_witness:
  "has_shell_meta (js ''git status > out.txt'') \<and>
   validateCommand (js ''git status'') =
     Inr \<lparr>allowed = True, sanitized = Some (js ''git status''), reason = None\<rparr> \<and>
   validateCommand (js ''git status > out.txt'') =
     Inr \<lparr>allowed = False, sanitized = None,
          reason = Some ''Shell redirection/piping not allowed''\<rparr>"
proof -
  have h: "has_shell_meta (js ''git status > out.txt'')"
    by (simp add: has_shell_meta_def is_shell_meta_def js_def)
  from shell_metacharacter_rejected [OF h] h git_status_allowed show ?thesis by simp
qed

text \<open>
  C9, as the code has it.  A command whose trimmed form matches a dangerous pattern is
  rejected with the reason for shell redirection when it contains \<^verbatim>\<open>|\<close>, \<^verbatim>\<open>>\<close>, \<^verbatim>\<open><\<close> or
  \<^verbatim>\<open>&\<close>, and with the reason \<^verbatim>\<open>Command not in allowlist\<close> otherwise.  That is the reason of
  every rejection of a non-empty command without such a character, so a denylist match
  and an allowlist miss carry the same reason, and no reason names a pattern.
\<close>

theorem denylist_reason_is_allowlist_reason:
  "(matches_dangerous (trim command) \<longrightarrow>
      validateCommand command =
        Inr \<lparr>allowed = False, sanitized = None,
             reason = Some (if has_shell_meta command
                            then ''Shell redirection/piping not allowed''
                            else ''Command not in allowlist'')\<rparr>) \<and>
   (\<forall>v. validateCommand command = Inr v \<and> \<not> allowed v \<and> command \<noteq> [] \<and>
        \<not> has_shell_meta command \<longrightarrow> reason v = Some ''Command not in allowlist'')"
  using dangerous_reason [of command] rejection_reason [of command] by auto

theorem denylist_reason_is_allowlist_reason_witness:
  "matches_dangerous (trim (js ''rm -rf /tmp'')) \<and>
   validateCommand (js ''rm -rf /tmp'') =
     Inr \<lparr>allowed = False, sanitized = None, reason = Some ''Command not in allowlist''\<rparr> \<and>
   validateCommand (js ''frobnicate'') =
     Inr \<lparr>allowed = False, sanitized = None, reason = Some ''Command not in allowlist''\<rparr> \<and>
   js ''frobnicate'' \<noteq> [] \<and> \<not> has_shell_meta (js ''frobnicate'') \<and>
   reason \<lparr>allowed = False, sanitized = None, reason = Some ''Command not in allowlist''\<rparr> =
     Some ''Command not in allowlist''"
proof -
  have t: "trim (js ''rm -rf /tmp'') = js ''rm -rf /tmp''"
    by (simp add: js_def trim_def is_ws_def)
  have m: "\<not> has_shell_meta (js ''rm -rf /tmp'')"
    by (simp add: has_shell_meta_def is_shell_meta_def js_def)
  have f: "js ''frobnicate'' \<noteq> []" "\<not> has_shell_meta (js ''frobnicate'')"
    by (simp_all add: has_shell_meta_def is_shell_meta_def js_def)
  from denylist_reason_is_allowlist_reason [of "js ''rm -rf /tmp''"] rm_rf_dangerous t m
  have a: "validateCommand (js ''rm -rf /tmp'') =
             Inr \<lparr>allowed = False, sanitized = None, reason = Some ''Command not in allowlist''\<rparr>"
    by simp
  from denylist_reason_is_allowlist_reason [of "js ''frobnicate''"] frobnicate_rejected f
  have b: "reason \<lparr>allowed = False, sanitized = None, reason = Some ''Command not in allowlist''\<rparr> =
             Some ''Command not in allowlist''"
    by simp
  from rm_rf_dangerous t a b f frobnicate_rejected show ?thesis by simp
qed

text \<open>
  C9 as stated fails: \<^verbatim>\<open>rm -rf /tmp\<close> matches the denylist and \<^verbatim>\<open>frobnicate\<close> does not,
  and the validator answers both with the same result and the same reason.
\<close>

theorem denylist_reason_indistinct_counterexample:
  "matches_dangerous (js ''rm -rf /tmp'') \<and> \<not> matches_dangerous (js ''frobnicate'') \<and>
   validateCommand (js ''rm -rf /tmp'') =
     Inr \<lparr>allowed = False, sanitized = None, reason = Some ''Command not in allowlist''\<rparr> \<and>
   validateCommand (js ''frobnicate'') =
     Inr \<lparr>allowed = False, sanitized = None, reason = Some ''Command not in allowlist''\<rparr>"
  using rm_rf_dangerous frobnicate_not_dangerous rm_rf_rejected frobnicate_rejected by simp

text \<open>
  C10: an executable whose entry in the table is the empty list (\<^verbatim>\<open>node\<close>, \<^verbatim>\<open>pytest\<close>,
  \<^verbatim>\<open>ls\<close>, \<^verbatim>\<open>dir\<close>, \<^verbatim>\<open>pwd\<close>, \<^verbatim>\<open>echo\<close>), followed by a blank and any argument string, is
  allowed, provided that the argument string contains none of \<^verbatim>\<open>|\<close>, \<^verbatim>\<open>>\<close>, \<^verbatim>\<open><\<close>, \<^verbatim>\<open>&\<close>
  and matches no dangerous pattern.  For \<^verbatim>\<open>node\<close> the argument string is any script.
\<close>

theorem empty_entry_admits_any_arguments:
  assumes "(b, []) \<in> set ALLOWED_COMMANDS" "\<not> has_shell_meta s" "\<not> matches_dangerous s"
  shows "validateCommand (js b @ 32 # s) =
           Inr \<lparr>allowed = True, sanitized = Some (trim (js b @ 32 # s)), reason = None\<rparr>"
proof -
  let ?cmd = "js b @ 32 # s"
  note w = empty_entry_word [OF assms(1)]
  have ne: "?cmd \<noteq> []" by simp
  have "\<not> has_shell_meta ?cmd" using assms(1,2) by (rule entry_command_plain)
  then have san: "sanitize ?cmd = trim ?cmd" by (rule sanitize_plain)
  obtain rest where sp: "split_ws (trim ?cmd) = js b # rest"
    using split_ws_command [of "js b" s] w by blast
  with w have tne: "trim ?cmd \<noteq> []" by auto
  have nd: "\<not> matches_dangerous (trim ?cmd)" using assms by (rule entry_not_dangerous)
  have al: "isCommandAllowed (trim ?cmd) = Inr True"
    using tne nd sp by (simp add: isCommandAllowed_def trim_idem empty_entry_property [OF assms(1)])
  show ?thesis
    using ne san al by (simp add: validateCommand_def)
qed

theorem empty_entry_admits_any_arguments_witness:
  "(''node'', []) \<in> set ALLOWED_COMMANDS \<and>
   \<not> has_shell_meta (js ''deploy.js'') \<and> \<not> matches_dangerous (js ''deploy.js'') \<and>
   validateCommand (js ''node'' @ 32 # js ''deploy.js'') =
     Inr \<lparr>allowed = True, sanitized = Some (js ''node deploy.js''), reason = None\<rparr>"
  using empty_entry_admits_any_arguments [OF node_entry deploy_plain deploy_not_dangerous]
    node_entry deploy_plain deploy_not_dangerous trim_node_deploy by simp

section \<open>The sandbox\<close>

lemmas handlers = on_timeout_def on_grace_def on_stdout_def on_stderr_def on_exit_def
  on_error_def settle_def kill_def Let_def

lemma inv_spawned: "sandbox_inv lim spawned"
  by (simp add: sandbox_inv_def spawned_def)

lemma inv_handle: "sandbox_inv lim s \<Longrightarrow> sandbox_inv lim (handle lim s e)"
  by (cases e) (auto simp: sandbox_inv_def handlers split: option.splits)

lemma run_snoc: "run lim (es @ [e]) = handle lim (run lim es) e"
  by (simp add: run_def)

lemma run_append: "run lim (es @ later) = foldl (handle lim) (run lim es) later"
  by (simp add: run_def)

lemma inv_run: "sandbox_inv lim (run lim es)"
  by (induction es rule: rev_induct) (simp_all add: run_snoc inv_handle, simp add: run_def inv_spawned)

lemma inv_foldl: "sandbox_inv lim s \<Longrightarrow> sandbox_inv lim (foldl (handle lim) s es)"
  by (induction es arbitrary: s) (simp_all add: inv_handle)

lemma settled_handle: "settled s = Some x \<Longrightarrow> settled (handle lim s e) = Some x"
  by (cases e) (auto simp: handlers)

lemma settled_foldl: "settled s = Some x \<Longrightarrow> settled (foldl (handle lim) s es) = Some x"
  by (induction es arbitrary: s) (simp_all add: settled_handle)

lemma signals_handle:
  "sandbox_inv lim s \<Longrightarrow> settled s = Some x \<Longrightarrow> e \<noteq> GraceFired \<Longrightarrow>
   signals (proc (handle lim s e)) = signals (proc s)"
  by (cases e) (auto simp: sandbox_inv_def handlers)

lemma signals_foldl:
  "sandbox_inv lim s \<Longrightarrow> settled s = Some x \<Longrightarrow> GraceFired \<notin> set es \<Longrightarrow>
   signals (proc (foldl (handle lim) s es)) = signals (proc s)"
proof (induction es arbitrary: s)
  case Nil
  then show ?case by simp
next
  case (Cons e es)
  have "signals (proc (foldl (handle lim) (handle lim s e) es)) = signals (proc (handle lim s e))"
    using Cons.prems by (intro Cons.IH) (simp_all add: inv_handle settled_handle)
  also have "\<dots> = signals (proc s)"
    using Cons.prems by (intro signals_handle [where x = x]) auto
  finally show ?case by simp
qed

lemma exit_settles: "sandbox_inv lim s \<Longrightarrow> settled (handle lim s (Exit code sig)) \<noteq> None"
  by (auto simp: sandbox_inv_def handlers split: option.splits)

lemma exit_in_trace_settles: "Exit code sig \<in> set es \<Longrightarrow> settled (run lim es) \<noteq> None"
proof (induction es rule: rev_induct)
  case Nil
  then show ?case by simp
next
  case (snoc e es)
  show ?case
  proof (cases "e = Exit code sig")
    case True
    then show ?thesis using exit_settles [OF inv_run] by (simp add: run_snoc)
  next
    case False
    with snoc obtain x where "settled (run lim es) = Some x" by auto
    then show ?thesis by (simp add: run_snoc settled_handle)
  qed
qed

lemma result_only_from_exit:
  "settled s = None \<Longrightarrow> settled (handle lim s e) = Some (Inr r) \<Longrightarrow>
   \<exists>code sig. e = Exit code sig \<and>
     r = \<lparr>success = (code = Some 0), stdout = take (maxBuffer lim) (stdout_acc s),
          stderr = take (maxBuffer lim) (stderr_acc s), exitCode = exit_code code sig\<rparr>"
  by (cases e) (auto simp: handlers split: if_splits)

lemma returned_result_origin:
  "settled (run lim es) = Some (Inr r) \<Longrightarrow>
   \<exists>before code sig later. es = before @ Exit code sig # later \<and> settled (run lim before) = None \<and>
     r = \<lparr>success = (code = Some 0), stdout = take (maxBuffer lim) (stdout_acc (run lim before)),
          stderr = take (maxBuffer lim) (stderr_acc (run lim before)),
          exitCode = exit_code code sig\<rparr>"
proof (induction es rule: rev_induct)
  case Nil
  then show ?case by (simp add: run_def spawned_def)
next
  case (snoc e es)
  show ?case
  proof (cases "settled (run lim es)")
    case None
    with snoc.prems obtain code sig where "e = Exit code sig"
      "r = \<lparr>success = (code = Some 0), stdout = take (maxBuffer lim) (stdout_acc (run lim es)),
           stderr = take (maxBuffer lim) (stderr_acc (run lim es)), exitCode = exit_code code sig\<rparr>"
      using result_only_from_exit [of "run lim es" lim e r] by (auto simp: run_snoc)
    with None show ?thesis by blast
  next
    case (Some y)
    then have "settled (run lim (es @ [e])) = Some y" by (simp add: run_snoc settled_handle)
    with snoc.prems have "settled (run lim es) = Some (Inr r)" using Some by simp
    then obtain before code sig later where
      "es = before @ Exit code sig # later" "settled (run lim before) = None"
      "r = \<lparr>success = (code = Some 0), stdout = take (maxBuffer lim) (stdout_acc (run lim before)),
           stderr = take (maxBuffer lim) (stderr_acc (run lim before)),
           exitCode = exit_code code sig\<rparr>"
      using snoc.IH by blast
    then have "es @ [e] = before @ Exit code sig # (later @ [e])" by simp
    then show ?thesis
      using \<open>settled (run lim before) = None\<close> \<open>r = _\<close> by blast
  qed
qed

lemma overflow_stdout:
  "sandbox_inv lim s \<Longrightarrow> settled s = None \<Longrightarrow> length (stdout_acc s @ d) > maxBuffer lim \<Longrightarrow>
   settled (handle lim s (StdoutData d)) = Some (Inl (OutputBufferExceeded (maxBuffer lim)))"
  by (auto simp: sandbox_inv_def handlers)

lemma overflow_stderr:
  "sandbox_inv lim s \<Longrightarrow> settled s = None \<Longrightarrow> length (stderr_acc s @ d) > maxBuffer lim \<Longrightarrow>
   settled (handle lim s (StderrData d)) = Some (Inl (ErrorBufferExceeded (maxBuffer lim)))"
  by (auto simp: sandbox_inv_def handlers)

lemma run_cons_append: "run lim (es @ e # later) = foldl (handle lim) (handle lim (run lim es) e) later"
  by (simp add: run_def)

lemmas sandbox_eval = run_def spawned_def handlers exit_code_def

lemma limits_of_small:
  "limits_of \<lparr>opt_timeout = Some 1000, opt_maxMemory = None, opt_maxBuffer = Some 4\<rparr> =
     \<lparr>timeout = 1000, maxMemory = DEFAULT_MAX_MEMORY, maxBuffer = 4\<rparr>"
  by (simp add: limits_of_def)

lemma node_trap_allowed:
  "validateCommand (js ''node trap.js'') =
     Inr \<lparr>allowed = True, sanitized = Some (js ''node trap.js''), reason = None\<rparr>"
  by (simp add: validator_defs)

text \<open>
  C1, as the code has it.  \<open>executeSandboxed\<close> reports a failure by raising: a command that
  the validator rejects makes it throw \<^verbatim>\<open>Command not allowed: <reason>\<close> before anything is
  spawned, and a result is returned only for an allowed command whose \<^verbatim>\<open>'exit'\<close> event
  arrives while the promise is pending, that is, before a timeout, an overflow or a process
  error has rejected it.  The result has the fields \<open>success\<close>, \<open>stdout\<close>, \<open>stderr\<close> and
  \<open>exitCode\<close>, and no field for a violation.
\<close>

theorem failures_are_raised:
  "(\<forall>v. validateCommand command = Inr v \<and> \<not> allowed v \<longrightarrow>
        executeSandboxed command opts es = Some (Inl (CommandNotAllowed (reason_text v)))) \<and>
   (\<forall>r. executeSandboxed command opts es = Some (Inr r) \<longrightarrow>
        (\<exists>v. validateCommand command = Inr v \<and> allowed v) \<and>
        (\<exists>before code sig later.
            es = before @ Exit code sig # later \<and>
            settled (run (limits_of opts) before) = None \<and>
            r = \<lparr>success = (code = Some 0),
                 stdout = take (maxBuffer (limits_of opts)) (stdout_acc (run (limits_of opts) before)),
                 stderr = take (maxBuffer (limits_of opts)) (stderr_acc (run (limits_of opts) before)),
                 exitCode = exit_code code sig\<rparr>))"
proof (intro conjI allI impI)
  fix v assume "validateCommand command = Inr v \<and> \<not> allowed v"
  then show "executeSandboxed command opts es = Some (Inl (CommandNotAllowed (reason_text v)))"
    by (simp add: executeSandboxed_def)
next
  fix r assume r: "executeSandboxed command opts es = Some (Inr r)"
  then show "\<exists>v. validateCommand command = Inr v \<and> allowed v"
    by (auto simp: executeSandboxed_def split: sum.splits if_splits)
  from r have "settled (run (limits_of opts) es) = Some (Inr r)"
    by (auto simp: executeSandboxed_def split: sum.splits if_splits)
  then show "\<exists>before code sig later.
            es = before @ Exit code sig # later \<and>
            settled (run (limits_of opts) before) = None \<and>
            r = \<lparr>success = (code = Some 0),
                 stdout = take (maxBuffer (limits_of opts)) (stdout_acc (run (limits_of opts) before)),
                 stderr = take (maxBuffer (limits_of opts)) (stderr_acc (run (limits_of opts) before)),
                 exitCode = exit_code code sig\<rparr>"
    by (rule returned_result_origin)
qed

theorem failures_are_raised_witness:
  "validateCommand (js ''rm -rf /tmp'') =
     Inr \<lparr>allowed = False, sanitized = None, reason = Some ''Command not in allowlist''\<rparr> \<and>
   executeSandboxed (js ''rm -rf /tmp'') \<lparr>opt_timeout = Some 1000, opt_maxMemory = None, opt_maxBuffer = Some 4\<rparr> [Exit (Some 0) None] =
     Some (Inl (CommandNotAllowed ''Command not in allowlist'')) \<and>
   executeSandboxed (js ''node trap.js'') \<lparr>opt_timeout = Some 1000, opt_maxMemory = None, opt_maxBuffer = Some 4\<rparr> [Exit (Some 0) None] =
     Some (Inr \<lparr>success = True, stdout = [], stderr = [], exitCode = 0\<rparr>) \<and>
   (\<exists>v. validateCommand (js ''node trap.js'') = Inr v \<and> allowed v)"
proof -
  have r: "executeSandboxed (js ''node trap.js'') \<lparr>opt_timeout = Some 1000, opt_maxMemory = None, opt_maxBuffer = Some 4\<rparr> [Exit (Some 0) None] =
             Some (Inr \<lparr>success = True, stdout = [], stderr = [], exitCode = 0\<rparr>)"
    using node_trap_allowed by (simp add: executeSandboxed_def limits_of_small sandbox_eval)
  from failures_are_raised [of "js ''rm -rf /tmp''" "\<lparr>opt_timeout = Some 1000, opt_maxMemory = None, opt_maxBuffer = Some 4\<rparr>" "[Exit (Some 0) None]"]
    rm_rf_rejected
  have a: "executeSandboxed (js ''rm -rf /tmp'') \<lparr>opt_timeout = Some 1000, opt_maxMemory = None, opt_maxBuffer = Some 4\<rparr> [Exit (Some 0) None] =
             Some (Inl (CommandNotAllowed ''Command not in allowlist''))"
    by (simp add: reason_text_def)
  from failures_are_raised [of "js ''node trap.js''" "\<lparr>opt_timeout = Some 1000, opt_maxMemory = None, opt_maxBuffer = Some 4\<rparr>" "[Exit (Some 0) None]"] r
  have b: "\<exists>v. validateCommand (js ''node trap.js'') = Inr v \<and> allowed v"
    by blast
  from a b r rm_rf_rejected show ?thesis by blast
qed

text \<open>
  C1 as stated fails: for a command that the validator rejects nothing is returned; the
  call ends in the exception \<^verbatim>\<open>Command not allowed: Command not in allowlist\<close>.
\<close>

theorem policy_rejection_is_raised_counterexample:
  "executeSandboxed (js ''rm -rf /tmp'')
     \<lparr>opt_timeout = None, opt_maxMemory = None, opt_maxBuffer = None\<rparr> [] =
   Some (Inl (CommandNotAllowed ''Command not in allowlist''))"
  using rm_rf_rejected by (simp add: executeSandboxed_def reason_text_def)

text \<open>
  C2: once one of the event sources has settled the promise, no later event changes the
  outcome (of the promise in the closure, and so of \<open>executeSandboxed\<close>), and no later
  event of the racing sources (timeout, output, exit, error) delivers a signal to the
  child, in whatever order the events arrive; and an \<^verbatim>\<open>'exit'\<close> event always leaves the
  promise settled.
\<close>

theorem exactly_once_resolution:
  "(executeSandboxed command opts es = Some x \<longrightarrow>
      executeSandboxed command opts (es @ later) = Some x) \<and>
   (settled (run lim es) = Some y \<longrightarrow>
      settled (run lim (es @ later)) = Some y \<and>
      (GraceFired \<notin> set later \<longrightarrow>
         signals (proc (run lim (es @ later))) = signals (proc (run lim es)))) \<and>
   (Exit code sig \<in> set es \<longrightarrow> settled (run lim es) \<noteq> None)"
proof (intro conjI impI)
  assume "executeSandboxed command opts es = Some x"
  then show "executeSandboxed command opts (es @ later) = Some x"
    by (auto simp: executeSandboxed_def run_append settled_foldl split: sum.splits if_splits)
next
  assume "settled (run lim es) = Some y"
  then show "settled (run lim (es @ later)) = Some y"
    by (simp add: run_append settled_foldl)
next
  assume "settled (run lim es) = Some y" "GraceFired \<notin> set later"
  then show "signals (proc (run lim (es @ later))) = signals (proc (run lim es))"
    by (simp add: run_append signals_foldl [OF inv_run])
next
  assume "Exit code sig \<in> set es"
  then show "settled (run lim es) \<noteq> None" by (rule exit_in_trace_settles)
qed

theorem exactly_once_resolution_witness:
  "settled (run \<lparr>timeout = 1000, maxMemory = 1048576, maxBuffer = 4\<rparr> [TimeoutFired]) = Some (Inl (CommandTimeout 1000)) \<and>
   settled (run \<lparr>timeout = 1000, maxMemory = 1048576, maxBuffer = 4\<rparr> ([TimeoutFired] @ [Exit None (Some ''SIGTERM''), StdoutData (js ''late'')])) =
     Some (Inl (CommandTimeout 1000)) \<and>
   signals (proc (run \<lparr>timeout = 1000, maxMemory = 1048576, maxBuffer = 4\<rparr> ([TimeoutFired] @ [Exit None (Some ''SIGTERM''), StdoutData (js ''late'')]))) =
     [SIGTERM] \<and>
   settled (run \<lparr>timeout = 1000, maxMemory = 1048576, maxBuffer = 4\<rparr> [Exit (Some 0) None]) \<noteq> None \<and>
   executeSandboxed (js ''node trap.js'') \<lparr>opt_timeout = Some 1000, opt_maxMemory = None, opt_maxBuffer = Some 4\<rparr> [Exit (Some 0) None] =
     Some (Inr \<lparr>success = True, stdout = [], stderr = [], exitCode = 0\<rparr>) \<and>
   executeSandboxed (js ''node trap.js'') \<lparr>opt_timeout = Some 1000, opt_maxMemory = None, opt_maxBuffer = Some 4\<rparr> ([Exit (Some 0) None] @ [StdoutData (js ''12345'')]) =
     Some (Inr \<lparr>success = True, stdout = [], stderr = [], exitCode = 0\<rparr>)"
proof -
  have h: "settled (run \<lparr>timeout = 1000, maxMemory = 1048576, maxBuffer = 4\<rparr> [TimeoutFired]) = Some (Inl (CommandTimeout 1000))"
    by (simp add: sandbox_eval)
  have g: "GraceFired \<notin> set [Exit None (Some ''SIGTERM''), StdoutData (js ''late'')]"
    by simp
  have s: "signals (proc (run \<lparr>timeout = 1000, maxMemory = 1048576, maxBuffer = 4\<rparr> [TimeoutFired])) = [SIGTERM]"
    by (simp add: sandbox_eval)
  have e: "Exit (Some 0) None \<in> set [Exit (Some 0) None]"
    by simp
  have r: "executeSandboxed (js ''node trap.js'') \<lparr>opt_timeout = Some 1000, opt_maxMemory = None, opt_maxBuffer = Some 4\<rparr> [Exit (Some 0) None] =
             Some (Inr \<lparr>success = True, stdout = [], stderr = [], exitCode = 0\<rparr>)"
    using node_trap_allowed by (simp add: executeSandboxed_def limits_of_small sandbox_eval)
  from exactly_once_resolution [where lim = "\<lparr>timeout = 1000, maxMemory = 1048576, maxBuffer = 4\<rparr>" and es = "[TimeoutFired]"
      and y = "Inl (CommandTimeout 1000)"
      and later = "[Exit None (Some ''SIGTERM''), StdoutData (js ''late'')]"] h g s
  have a: "settled (run \<lparr>timeout = 1000, maxMemory = 1048576, maxBuffer = 4\<rparr> ([TimeoutFired] @ [Exit None (Some ''SIGTERM''), StdoutData (js ''late'')])) =
             Some (Inl (CommandTimeout 1000)) \<and>
           signals (proc (run \<lparr>timeout = 1000, maxMemory = 1048576, maxBuffer = 4\<rparr> ([TimeoutFired] @ [Exit None (Some ''SIGTERM''), StdoutData (js ''late'')]))) =
             [SIGTERM]"
    by presburger
  from exactly_once_resolution [where lim = "\<lparr>timeout = 1000, maxMemory = 1048576, maxBuffer = 4\<rparr>" and code = "Some 0" and sig = None
      and es = "[Exit (Some 0) None]"] e
  have b: "settled (run \<lparr>timeout = 1000, maxMemory = 1048576, maxBuffer = 4\<rparr> [Exit (Some 0) None]) \<noteq> None"
    by blast
  from exactly_once_resolution [where command = "js ''node trap.js''" and opts = "\<lparr>opt_timeout = Some 1000, opt_maxMemory = None, opt_maxBuffer = Some 4\<rparr>"
      and es = "[Exit (Some 0) None]" and later = "[StdoutData (js ''12345'')]"
      and x = "Inr \<lparr>success = True, stdout = [], stderr = [], exitCode = 0\<rparr>"] r
  have c: "executeSandboxed (js ''node trap.js'') \<lparr>opt_timeout = Some 1000, opt_maxMemory = None, opt_maxBuffer = Some 4\<rparr> ([Exit (Some 0) None] @ [StdoutData (js ''12345'')]) =
             Some (Inr \<lparr>success = True, stdout = [], stderr = [], exitCode = 0\<rparr>)"
    by blast
  from h a b r c show ?thesis by blast
qed

text \<open>
  C3, as the code has it.  The limit is applied to each stream on its own: a chunk that
  makes the accumulated standard output longer than \<open>maxBuffer\<close> while the promise is
  pending makes the call throw \<^verbatim>\<open>Output buffer exceeded <maxBuffer> bytes\<close>, and one that
  does so for the standard error makes it throw \<^verbatim>\<open>Error buffer exceeded <maxBuffer> bytes\<close>;
  the exception carries no output.  In every returned result \<open>stdout\<close> and \<open>stderr\<close> have
  length at most \<open>maxBuffer\<close> each.
\<close>

theorem per_stream_overflow_rejects:
  "(settled (run lim es) = None \<and> length (stdout_acc (run lim es) @ d) > maxBuffer lim \<longrightarrow>
      settled (run lim (es @ StdoutData d # later)) =
        Some (Inl (OutputBufferExceeded (maxBuffer lim)))) \<and>
   (settled (run lim es) = None \<and> length (stderr_acc (run lim es) @ d) > maxBuffer lim \<longrightarrow>
      settled (run lim (es @ StderrData d # later)) =
        Some (Inl (ErrorBufferExceeded (maxBuffer lim)))) \<and>
   (settled (run lim es) = Some (Inr r) \<longrightarrow>
      length (stdout r) \<le> maxBuffer lim \<and> length (stderr r) \<le> maxBuffer lim)"
proof (intro conjI impI)
  assume "settled (run lim es) = None \<and> length (stdout_acc (run lim es) @ d) > maxBuffer lim"
  then have "settled (handle lim (run lim es) (StdoutData d)) =
               Some (Inl (OutputBufferExceeded (maxBuffer lim)))"
    using overflow_stdout [OF inv_run] by blast
  then show "settled (run lim (es @ StdoutData d # later)) =
               Some (Inl (OutputBufferExceeded (maxBuffer lim)))"
    unfolding run_cons_append by (rule settled_foldl)
next
  assume "settled (run lim es) = None \<and> length (stderr_acc (run lim es) @ d) > maxBuffer lim"
  then have "settled (handle lim (run lim es) (StderrData d)) =
               Some (Inl (ErrorBufferExceeded (maxBuffer lim)))"
    using overflow_stderr [OF inv_run] by blast
  then show "settled (run lim (es @ StderrData d # later)) =
               Some (Inl (ErrorBufferExceeded (maxBuffer lim)))"
    unfolding run_cons_append by (rule settled_foldl)
next
  assume "settled (run lim es) = Some (Inr r)"
  then show "length (stdout r) \<le> maxBuffer lim" "length (stderr r) \<le> maxBuffer lim"
    using inv_run [of lim es] by (auto simp: sandbox_inv_def)
qed

theorem per_stream_overflow_rejects_witness:
  "settled (run \<lparr>timeout = 1000, maxMemory = 1048576, maxBuffer = 4\<rparr> [StdoutData (js ''abc'')]) = None \<and>
   length (stdout_acc (run \<lparr>timeout = 1000, maxMemory = 1048576, maxBuffer = 4\<rparr> [StdoutData (js ''abc'')]) @ js ''de'') > 4 \<and>
   settled (run \<lparr>timeout = 1000, maxMemory = 1048576, maxBuffer = 4\<rparr> ([StdoutData (js ''abc'')] @ StdoutData (js ''de'') # [Exit (Some 0) None])) =
     Some (Inl (OutputBufferExceeded 4)) \<and>
   length (stderr_acc (run \<lparr>timeout = 1000, maxMemory = 1048576, maxBuffer = 4\<rparr> [StdoutData (js ''abc'')]) @ js ''12345'') > 4 \<and>
   settled (run \<lparr>timeout = 1000, maxMemory = 1048576, maxBuffer = 4\<rparr> ([StdoutData (js ''abc'')] @ StderrData (js ''12345'') # [Exit (Some 0) None])) =
     Some (Inl (ErrorBufferExceeded 4)) \<and>
   settled (run \<lparr>timeout = 1000, maxMemory = 1048576, maxBuffer = 4\<rparr> [StdoutData (js ''abc''), Exit (Some 0) None]) =
     Some (Inr \<lparr>success = True, stdout = js ''abc'', stderr = [], exitCode = 0\<rparr>) \<and>
   length (stdout \<lparr>success = True, stdout = js ''abc'', stderr = [], exitCode = 0\<rparr>) \<le> 4"
proof -
  have h: "settled (run \<lparr>timeout = 1000, maxMemory = 1048576, maxBuffer = 4\<rparr> [StdoutData (js ''abc'')]) = None"
    by (simp add: sandbox_eval js_def)
  have l: "length (stdout_acc (run \<lparr>timeout = 1000, maxMemory = 1048576, maxBuffer = 4\<rparr> [StdoutData (js ''abc'')]) @ js ''de'') > 4"
    by (simp add: sandbox_eval js_def)
  have m: "length (stderr_acc (run \<lparr>timeout = 1000, maxMemory = 1048576, maxBuffer = 4\<rparr> [StdoutData (js ''abc'')]) @ js ''12345'') > 4"
    by (simp add: sandbox_eval js_def)
  have r: "settled (run \<lparr>timeout = 1000, maxMemory = 1048576, maxBuffer = 4\<rparr> [StdoutData (js ''abc''), Exit (Some 0) None]) =
             Some (Inr \<lparr>success = True, stdout = js ''abc'', stderr = [], exitCode = 0\<rparr>)"
    by (simp add: sandbox_eval js_def)
  from per_stream_overflow_rejects [of "\<lparr>timeout = 1000, maxMemory = 1048576, maxBuffer = 4\<rparr>" "[StdoutData (js ''abc'')]" "js ''de''"
      "[Exit (Some 0) None]"] h l
  have a: "settled (run \<lparr>timeout = 1000, maxMemory = 1048576, maxBuffer = 4\<rparr> ([StdoutData (js ''abc'')] @ StdoutData (js ''de'') # [Exit (Some 0) None])) =
             Some (Inl (OutputBufferExceeded 4))"
    by simp
  from per_stream_overflow_rejects [of "\<lparr>timeout = 1000, maxMemory = 1048576, maxBuffer = 4\<rparr>" "[StdoutData (js ''abc'')]" "js ''12345''"
      "[Exit (Some 0) None]"] h m
  have b: "settled (run \<lparr>timeout = 1000, maxMemory = 1048576, maxBuffer = 4\<rparr> ([StdoutData (js ''abc'')] @ StderrData (js ''12345'') # [Exit (Some 0) None])) =
             Some (Inl (ErrorBufferExceeded 4))"
    by simp
  from per_stream_overflow_rejects [where lim = "\<lparr>timeout = 1000, maxMemory = 1048576, maxBuffer = 4\<rparr>"
      and es = "[StdoutData (js ''abc''), Exit (Some 0) None]"
      and r = "\<lparr>success = True, stdout = js ''abc'', stderr = [], exitCode = 0\<rparr>"] r
  have c: "length (stdout \<lparr>success = True, stdout = js ''abc'', stderr = [], exitCode = 0\<rparr>) \<le> 4"
    by simp
  from h l a m b r c show ?thesis by blast
qed

text \<open>
  C3 as stated fails: with \<open>maxBuffer = 4\<close>, three characters on each stream are six in
  all, more than the limit, and the call returns a result that holds all six.
\<close>

theorem combined_output_over_limit_counterexample:
  "length (js ''abc'' @ js ''def'') > 4 \<and>
   executeSandboxed (js ''node trap.js'') \<lparr>opt_timeout = Some 1000, opt_maxMemory = None, opt_maxBuffer = Some 4\<rparr>
     [StdoutData (js ''abc''), StderrData (js ''def''), Exit (Some 0) None] =
   Some (Inr \<lparr>success = True, stdout = js ''abc'', stderr = js ''def'', exitCode = 0\<rparr>)"
proof -
  have "settled (run \<lparr>timeout = 1000, maxMemory = DEFAULT_MAX_MEMORY, maxBuffer = 4\<rparr>
          [StdoutData (js ''abc''), StderrData (js ''def''), Exit (Some 0) None]) =
        Some (Inr \<lparr>success = True, stdout = js ''abc'', stderr = js ''def'', exitCode = 0\<rparr>)"
    by (simp add: sandbox_eval js_def)
  then show ?thesis
    using node_trap_allowed by (simp add: executeSandboxed_def limits_of_small js_def)
qed

text \<open>
  C7, as the code has it.  When the timer fires while it is pending (nothing has settled
  the promise and the child has not exited), \<^verbatim>\<open>SIGTERM\<close> is sent to the child, the timer of
  the grace period is started, and the call throws \<^verbatim>\<open>Command timeout after <timeout>ms\<close>.
\<close>

theorem timeout_terminates_and_rejects:
  assumes "timer_pending (run lim es)"
  shows "settled (run lim (es @ [TimeoutFired])) = Some (Inl (CommandTimeout (timeout lim))) \<and>
         signals (proc (run lim (es @ [TimeoutFired]))) = signals (proc (run lim es)) @ [SIGTERM] \<and>
         grace_pending (run lim (es @ [TimeoutFired]))"
  using assms inv_run [of lim es] by (auto simp: run_snoc sandbox_inv_def handlers)

theorem timeout_terminates_and_rejects_witness:
  "timer_pending (run \<lparr>timeout = 1000, maxMemory = 1048576, maxBuffer = 4\<rparr> [StdoutData (js ''ab'')]) \<and>
   settled (run \<lparr>timeout = 1000, maxMemory = 1048576, maxBuffer = 4\<rparr> ([StdoutData (js ''ab'')] @ [TimeoutFired])) =
     Some (Inl (CommandTimeout 1000)) \<and>
   signals (proc (run \<lparr>timeout = 1000, maxMemory = 1048576, maxBuffer = 4\<rparr> ([StdoutData (js ''ab'')] @ [TimeoutFired]))) = [SIGTERM] \<and>
   grace_pending (run \<lparr>timeout = 1000, maxMemory = 1048576, maxBuffer = 4\<rparr> ([StdoutData (js ''ab'')] @ [TimeoutFired]))"
proof -
  have h: "timer_pending (run \<lparr>timeout = 1000, maxMemory = 1048576, maxBuffer = 4\<rparr> [StdoutData (js ''ab'')])"
    by (simp add: sandbox_eval js_def)
  have s: "signals (proc (run \<lparr>timeout = 1000, maxMemory = 1048576, maxBuffer = 4\<rparr> [StdoutData (js ''ab'')])) = []"
    by (simp add: sandbox_eval js_def)
  from timeout_terminates_and_rejects [OF h] h s show ?thesis by simp
qed

text \<open>
  C7 as stated fails: the timer fires and, five seconds later, so does the timer of the
  grace period, while the child has not exited.  The call has thrown instead of returning
  a result, \<^verbatim>\<open>SIGTERM\<close> is the only signal that was sent (its delivery has set
  \<^verbatim>\<open>childProcess.killed\<close>, which is what the grace timer tests), and the child is alive.
\<close>

theorem no_forceful_kill_counterexample:
  "executeSandboxed (js ''node trap.js'') \<lparr>opt_timeout = Some 1000, opt_maxMemory = None, opt_maxBuffer = Some 4\<rparr> [TimeoutFired, GraceFired] =
     Some (Inl (CommandTimeout 1000)) \<and>
   signals (proc (run (limits_of \<lparr>opt_timeout = Some 1000, opt_maxMemory = None, opt_maxBuffer = Some 4\<rparr>) [TimeoutFired, GraceFired])) = [SIGTERM] \<and>
   \<not> exited (proc (run (limits_of \<lparr>opt_timeout = Some 1000, opt_maxMemory = None, opt_maxBuffer = Some 4\<rparr>) [TimeoutFired, GraceFired]))"
  using node_trap_allowed
  by (simp add: executeSandboxed_def limits_of_small sandbox_eval)

section \<open>The handler of POST /create-pr\<close>

lemma split_on_nonempty: "split_on sep s \<noteq> []"
  by (induction s) (auto split: list.splits)

lemma join_on_cons_char: "join_on sep ((c # p) # ps) = c # join_on sep (p # ps)"
  by (cases ps) simp_all

lemma join_on_split_on: "join_on sep (split_on sep s) = s"
proof (induction s)
  case Nil
  show ?case by simp
next
  case (Cons c s)
  obtain p ps where sp: "split_on sep s = p # ps"
    using split_on_nonempty [of sep s] by (cases "split_on sep s") auto
  show ?case
  proof (cases "c = sep")
    case True
    then show ?thesis using Cons sp by simp
  next
    case False
    then show ?thesis using Cons sp by (simp add: join_on_cons_char)
  qed
qed

lemma split_on_pieces: "f \<in> set (split_on sep s) \<Longrightarrow> sep \<notin> set f"
proof (induction s arbitrary: f)
  case Nil
  then show ?case by simp
next
  case (Cons c s)
  obtain p ps where sp: "split_on sep s = p # ps"
    using split_on_nonempty [of sep s] by (cases "split_on sep s") auto
  have p: "sep \<notin> set p" and ps: "\<And>g. g \<in> set ps \<Longrightarrow> sep \<notin> set g"
    using Cons.IH sp by auto
  show ?case
  proof (cases "c = sep")
    case True
    with Cons.prems sp have "f = [] \<or> f = p \<or> f \<in> set ps" by auto
    with p ps show ?thesis by auto
  next
    case False
    with Cons.prems sp have "f = c # p \<or> f \<in> set ps" by auto
    with p ps False show ?thesis by auto
  qed
qed

lemma staged_files_split:
  "join_on 10 (stagedFiles (make_preview branch message staged)) = staged \<and>
   (\<forall>f\<in>set (stagedFiles (make_preview branch message staged)). 10 \<notin> set f)"
  by (auto simp: make_preview_def join_on_split_on split_on_pieces)

lemmas stage_defs = push_stage_def commit_stage_def add_stage_def checkout_stage_def
  awaiting_def answered_def Let_def

lemma push_calls: "\<exists>rest. calls (push_stage sv body branch cs) = cs @ rest"
  by (auto simp: push_stage_def awaiting_def answered_def Let_def split: option.splits sum.splits)

lemma commit_calls: "\<exists>rest. calls (commit_stage sv body branch message cs) = cs @ rest"
proof -
  let ?c = "js ''git commit -m '' @ [34] @ escape_quotes message @ [34]"
  obtain rest where "calls (push_stage sv body branch (cs @ [?c])) = (cs @ [?c]) @ rest"
    using push_calls by blast
  then show ?thesis
    by (auto simp: commit_stage_def awaiting_def answered_def Let_def
             split: option.splits sum.splits)
qed

lemma add_calls: "\<exists>rest. calls (add_stage sv body branch message staged cs) = cs @ rest"
proof -
  obtain r1 where "calls (commit_stage sv body branch message (cs @ [js ''git add .''])) =
                     (cs @ [js ''git add .'']) @ r1"
    using commit_calls by blast
  moreover obtain r2 where "calls (commit_stage sv body branch message cs) = cs @ r2"
    using commit_calls by blast
  ultimately show ?thesis
    by (auto simp: add_stage_def awaiting_def answered_def Let_def
             split: option.splits sum.splits)
qed

lemma checkout_calls:
  "\<exists>rest. calls (checkout_stage sv body branch message staged cs) =
           cs @ (js ''git checkout -b '' @ branch) # rest"
proof -
  let ?c = "js ''git checkout -b '' @ branch"
  obtain r where "calls (add_stage sv body branch message staged (cs @ [?c])) = (cs @ [?c]) @ r"
    using add_calls by blast
  then show ?thesis
    by (auto simp: checkout_stage_def awaiting_def answered_def Let_def
             split: option.splits sum.splits)
qed

lemma missing_field_bad_request:
  assumes "req_branchName body = None \<or> req_branchName body = Some [] \<or>
           req_commitMessage body = None \<or> req_commitMessage body = Some []"
  shows "create_pr sv body =
           \<lparr>response = Some (BadRequest ''branchName and commitMessage are required''),
            calls = [],
            logged = [\<lparr>log_request = body, log_response = None, log_error = None\<rparr>]\<rparr>"
  using assms
  by (auto simp: create_pr_def answered_def logRequest_def Let_def split: option.splits)

lemma create_pr_gate:
  assumes "req_branchName body = Some branch" "branch \<noteq> []"
    and "req_commitMessage body = Some message" "message \<noteq> []"
    and "path_exists sv" "git_dir_exists sv"
    and "sandbox_call sv (js ''git diff --cached --name-only'') 5000 = Some outcome"
    and "staged = (case outcome of Inr result \<Rightarrow> trim (stdout result) | Inl err \<Rightarrow> [])"
  shows "create_pr sv body =
           (if \<not> dryRun sv \<and> req_confirm body \<noteq> JBool True then
              answered body (ConfirmationRequired (make_preview branch message staged)) None None
                [js ''git diff --cached --name-only'']
            else if dryRun sv \<or> req_confirm body \<noteq> JBool True then
              answered body (DryRun (make_preview branch message staged))
                (Some (DryRun (make_preview branch message staged))) None
                [js ''git diff --cached --name-only'']
            else checkout_stage sv body branch message staged
                   [js ''git diff --cached --name-only''])"
  using assms by (simp add: create_pr_def Let_def)

text \<open>
  C6, as the code has it.  For a request with a branch name and a commit message, on a
  path that exists and holds a git repository, once the call that reads the staged files
  has come back: the handler goes on to the git commands (the first is
  \<^verbatim>\<open>git checkout -b <branch>\<close>) exactly when dry-run mode is off and \<^verbatim>\<open>confirm\<close> is the
  boolean \<^verbatim>\<open>true\<close>.  In every other case it answers with a preview that holds the branch
  name, the commit message, the staged files (the lines of the trimmed output of
  \<^verbatim>\<open>git diff --cached --name-only\<close>) and the three operations in their order; it has passed
  no other command to the sandbox, and it has appended one line to the log file.
\<close>

theorem gate_previews_unless_confirmed:
  assumes "req_branchName body = Some branch" "branch \<noteq> []"
    and "req_commitMessage body = Some message" "message \<noteq> []"
    and "path_exists sv" "git_dir_exists sv"
    and "sandbox_call sv (js ''git diff --cached --name-only'') 5000 = Some outcome"
    and "staged = (case outcome of Inr result \<Rightarrow> trim (stdout result) | Inl err \<Rightarrow> [])"
    and "pv = \<lparr>branchName = branch, commitMessage = message,
                stagedFiles = (if staged \<noteq> [] then split_on 10 staged else []),
                operations = [js ''Would create branch: '' @ branch,
                              js ''Would commit with message: '' @ message,
                              js ''Would push to remote (if configured)'']\<rparr>"
  shows "(take 2 (calls (create_pr sv body)) =
            [js ''git diff --cached --name-only'', js ''git checkout -b '' @ branch] \<longleftrightarrow>
          \<not> dryRun sv \<and> req_confirm body = JBool True) \<and>
         (\<not> (\<not> dryRun sv \<and> req_confirm body = JBool True) \<longrightarrow>
            response (create_pr sv body) =
              Some ((if dryRun sv then DryRun else ConfirmationRequired) pv) \<and>
            calls (create_pr sv body) = [js ''git diff --cached --name-only''] \<and>
            logged (create_pr sv body) =
              [\<lparr>log_request = body,
                log_response = (if dryRun sv then Some (DryRun pv) else None),
                log_error = None\<rparr>]) \<and>
         join_on 10 (stagedFiles pv) = staged \<and> (\<forall>f\<in>set (stagedFiles pv). 10 \<notin> set f)"
proof -
  let ?d = "js ''git diff --cached --name-only''"
  note gate = create_pr_gate [OF assms(1-8)]
  have pv: "pv = make_preview branch message staged"
    using assms(9) by (simp add: make_preview_def)
  show ?thesis
  proof (cases "\<not> dryRun sv \<and> req_confirm body = JBool True")
    case True
    then have "create_pr sv body = checkout_stage sv body branch message staged [?d]"
      using gate by simp
    moreover obtain rest where
      "calls (checkout_stage sv body branch message staged [?d]) =
         [?d] @ (js ''git checkout -b '' @ branch) # rest"
      using checkout_calls by blast
    ultimately have "take 2 (calls (create_pr sv body)) = [?d, js ''git checkout -b '' @ branch]"
      by simp
    with True show ?thesis using staged_files_split [of branch message staged] pv by simp
  next
    case False
    then have "create_pr sv body =
                 (if dryRun sv then answered body (DryRun pv) (Some (DryRun pv)) None [?d]
                  else answered body (ConfirmationRequired pv) None None [?d])"
      using gate pv by auto
    with False show ?thesis
      using staged_files_split [of branch message staged] pv
      by (auto simp: answered_def logRequest_def)
  qed
qed

lemma diff_plain: "sanitize (js ''git diff --cached --name-only'') = js ''git diff --cached --name-only''"
  by (simp add: sanitize_def split_first_def trim_def is_ws_def js_def)

lemma diff_trimmed: "trim (js ''git diff --cached --name-only'') = js ''git diff --cached --name-only''"
  by (simp add: trim_def is_ws_def js_def)

lemma match_here_literal:
  "match_here r s \<Longrightarrow> One (Ch p) \<in> set r \<Longrightarrow> \<exists>c\<in>set s. canonicalize c = canonicalize p"
  by (induction r s rule: match_here.induct) auto

lemma regex_test_literal:
  "regex_test r s \<Longrightarrow> One (Ch p) \<in> set r \<Longrightarrow> \<exists>c\<in>set s. canonicalize c = canonicalize p"
proof (induction s)
  case Nil
  then show ?case using match_here_literal [of r "[]" p] by simp
next
  case (Cons a s)
  from Cons.prems(1) have "match_here r (a # s) \<or> regex_test r s" by simp
  then show ?case
  proof
    assume "match_here r (a # s)"
    from match_here_literal [OF this Cons.prems(2)] show ?thesis .
  next
    assume "regex_test r s"
    from Cons.IH [OF this Cons.prems(2)] show ?thesis by auto
  qed
qed

lemma dangerous_literals:
  "\<forall>p\<in>set DANGEROUS_PATTERNS.
     \<exists>q\<in>{114, 47, 107, 61, 115, 124, 62, 117, 119, 118, 120, 55, 112}. One (Ch q) \<in> set p"
  by (simp add: DANGEROUS_PATTERNS_def lit_def)

lemma diff_letters:
  "\<forall>c\<in>set (js ''git diff --cached --name-only'').
     \<forall>q\<in>{114, 47, 107, 61, 115, 124, 62, 117, 119, 118, 120, 55, 112}.
       canonicalize c \<noteq> canonicalize q"
  by (simp add: js_def canonicalize_def)

lemma diff_not_dangerous: "\<not> matches_dangerous (js ''git diff --cached --name-only'')"
proof
  assume "matches_dangerous (js ''git diff --cached --name-only'')"
  then obtain p where p: "p \<in> set DANGEROUS_PATTERNS"
    and m: "regex_test p (js ''git diff --cached --name-only'')"
    by (auto simp: matches_dangerous_def list_ex_iff)
  from p dangerous_literals obtain q where
    q: "q \<in> {114, 47, 107, 61, 115, 124, 62, 117, 119, 118, 120, 55, 112}" "One (Ch q) \<in> set p"
    by blast
  from regex_test_literal [OF m q(2)] obtain c where
    "c \<in> set (js ''git diff --cached --name-only'')" "canonicalize c = canonicalize q"
    by blast
  with q(1) diff_letters show False by blast
qed

lemma diff_words:
  "split_ws (js ''git diff --cached --name-only'') =
     [js ''git'', js ''diff'', js ''--cached'', js ''--name-only'']"
proof -
  have w: "\<forall>c\<in>set (js ''git''). \<not> is_ws c" "\<forall>c\<in>set (js ''diff''). \<not> is_ws c"
    "\<forall>c\<in>set (js ''--cached''). \<not> is_ws c" "\<forall>c\<in>set (js ''--name-only''). \<not> is_ws c"
    by (simp_all add: js_def is_ws_def)
  have k: "dropWhile is_ws (js ''diff'' @ 32 # js ''--cached'' @ 32 # js ''--name-only'') =
             js ''diff'' @ 32 # js ''--cached'' @ 32 # js ''--name-only''"
    "dropWhile is_ws (js ''--cached'' @ 32 # js ''--name-only'') = js ''--cached'' @ 32 # js ''--name-only''"
    "dropWhile is_ws (js ''--name-only'') = js ''--name-only''"
    by (simp_all add: js_def is_ws_def)
  have e: "js ''git diff --cached --name-only'' =
             js ''git'' @ 32 # js ''diff'' @ 32 # js ''--cached'' @ 32 # js ''--name-only''"
    by (simp add: js_def)
  show ?thesis
    unfolding e split_ws_word_args [OF w(1)] k(1) split_ws_word_args [OF w(2)] k(2)
      split_ws_word_args [OF w(3)] k(3) split_ws_word [OF w(4)] ..
qed

lemma diff_args:
  "js ''diff'' @ 32 # js ''--cached'' @ 32 # js ''--name-only'' = js ''diff --cached --name-only''"
  by (simp add: js_def)

lemma git_property:
  "get_property (js ''git'') =
     ArgList [''status'', ''diff'', ''log'', ''ls-files'', ''diff --cached --name-only'',
              ''checkout -b'', ''add .'', ''commit -m'', ''push -u origin'', ''branch'',
              ''remote -v'', ''show'']"
  by (simp add: get_property_def ALLOWED_COMMANDS_def js_def)

lemma diff_prefix_matches: "match_here (arg_pattern (js ''diff'')) (js ''diff --cached --name-only'')"
  by (simp add: js_def is_ws_def canonicalize_def)

lemma diff_allowed:
  "validateCommand (js ''git diff --cached --name-only'') =
     Inr \<lparr>allowed = True, sanitized = Some (js ''git diff --cached --name-only''), reason = None\<rparr>"
proof -
  have ne: "js ''git diff --cached --name-only'' \<noteq> []" by (simp add: js_def)
  have "some_arg_matches [''status'', ''diff'', ''log'', ''ls-files'', ''diff --cached --name-only'',
              ''checkout -b'', ''add .'', ''commit -m'', ''push -u origin'', ''branch'',
              ''remote -v'', ''show''] (js ''diff --cached --name-only'')"
    unfolding some_arg_matches_def list_ex_iff using diff_prefix_matches by fastforce
  then have "isCommandAllowed (js ''git diff --cached --name-only'') = Inr True"
    using ne diff_not_dangerous
    by (simp add: isCommandAllowed_def diff_trimmed diff_words diff_args git_property)
  then show ?thesis
    using ne by (simp add: validateCommand_def diff_plain diff_trimmed)
qed

lemma diff_outcome:
  "executeSandboxed (js ''git diff --cached --name-only'') \<lparr>opt_timeout = Some 5000, opt_maxMemory = None, opt_maxBuffer = None\<rparr>
     [StdoutData (js ''a.js'' @ 10 # js ''b.js'' @ [10]), Exit (Some 0) None] =
   Some (Inr \<lparr>success = True, stdout = js ''a.js'' @ 10 # js ''b.js'' @ [10], stderr = [], exitCode = 0\<rparr>)"
proof -
  have "settled (run \<lparr>timeout = 5000, maxMemory = DEFAULT_MAX_MEMORY, maxBuffer = DEFAULT_MAX_BUFFER\<rparr>
          [StdoutData (js ''a.js'' @ 10 # js ''b.js'' @ [10]), Exit (Some 0) None]) =
        Some (Inr \<lparr>success = True, stdout = js ''a.js'' @ 10 # js ''b.js'' @ [10], stderr = [], exitCode = 0\<rparr>)"
    by (simp add: sandbox_eval js_def DEFAULT_MAX_BUFFER_def)
  then show ?thesis
    using diff_allowed by (simp add: executeSandboxed_def limits_of_def)
qed

lemma diff_call:
  "sandbox_call \<lparr>dryRun = dry, path_exists = True, git_dir_exists = True,
       delivered = [(js ''git diff --cached --name-only'', [StdoutData (js ''a.js'' @ 10 # js ''b.js'' @ [10]), Exit (Some 0) None])]\<rparr> (js ''git diff --cached --name-only'') 5000 =
   Some (Inr \<lparr>success = True, stdout = js ''a.js'' @ 10 # js ''b.js'' @ [10], stderr = [], exitCode = 0\<rparr>)"
  using diff_outcome by (simp add: sandbox_call_def events_for_def)

lemma example_staged:
  "(case Inr \<lparr>success = True, stdout = js ''a.js'' @ 10 # js ''b.js'' @ [10], stderr = [], exitCode = 0\<rparr> of
      Inr result \<Rightarrow> trim (stdout result) | Inl (err :: sandbox_error) \<Rightarrow> []) =
   js ''a.js'' @ 10 # js ''b.js''"
  by (simp add: trim_def is_ws_def js_def)

lemma example_files:
  "(if js ''a.js'' @ 10 # js ''b.js'' \<noteq> [] then split_on 10 (js ''a.js'' @ 10 # js ''b.js'') else []) =
   [js ''a.js'', js ''b.js'']"
  by (simp add: js_def)

lemma example_preview:
  "\<lparr>branchName = js ''fix'', commitMessage = js ''msg'',
    stagedFiles = (if js ''a.js'' @ 10 # js ''b.js'' \<noteq> []
                   then split_on 10 (js ''a.js'' @ 10 # js ''b.js'') else []),
    operations = [js ''Would create branch: '' @ js ''fix'',
                  js ''Would commit with message: '' @ js ''msg'',
                  js ''Would push to remote (if configured)'']\<rparr> =
   \<lparr>branchName = js ''fix'', commitMessage = js ''msg'',
       stagedFiles = [js ''a.js'', js ''b.js''],
       operations = [js ''Would create branch: fix'', js ''Would commit with message: msg'',
                     js ''Would push to remote (if configured)'']\<rparr>"
  unfolding example_files by (simp add: js_def)

lemma example_body:
  "req_branchName \<lparr>req_branchName = Some (js ''fix''), req_commitMessage = Some (js ''msg''),
       req_repoPath = None, req_confirm = c\<rparr> = Some (js ''fix'')"
  "js ''fix'' \<noteq> []"
  "req_commitMessage \<lparr>req_branchName = Some (js ''fix''), req_commitMessage = Some (js ''msg''),
       req_repoPath = None, req_confirm = c\<rparr> = Some (js ''msg'')"
  "js ''msg'' \<noteq> []"
  by (simp_all add: js_def)

lemma example_server:
  "path_exists \<lparr>dryRun = dry, path_exists = True, git_dir_exists = True,
       delivered = [(js ''git diff --cached --name-only'', [StdoutData (js ''a.js'' @ 10 # js ''b.js'' @ [10]), Exit (Some 0) None])]\<rparr>"
  "git_dir_exists \<lparr>dryRun = dry, path_exists = True, git_dir_exists = True,
       delivered = [(js ''git diff --cached --name-only'', [StdoutData (js ''a.js'' @ 10 # js ''b.js'' @ [10]), Exit (Some 0) None])]\<rparr>"
  by simp_all

theorem gate_previews_unless_confirmed_witness:
  "response (create_pr \<lparr>dryRun = False, path_exists = True, git_dir_exists = True,
       delivered = [(js ''git diff --cached --name-only'', [StdoutData (js ''a.js'' @ 10 # js ''b.js'' @ [10]), Exit (Some 0) None])]\<rparr>
     \<lparr>req_branchName = Some (js ''fix''), req_commitMessage = Some (js ''msg''),
       req_repoPath = None, req_confirm = JBool False\<rparr>) =
     Some (ConfirmationRequired \<lparr>branchName = js ''fix'', commitMessage = js ''msg'',
       stagedFiles = [js ''a.js'', js ''b.js''],
       operations = [js ''Would create branch: fix'', js ''Would commit with message: msg'',
                     js ''Would push to remote (if configured)'']\<rparr>) \<and>
   calls (create_pr \<lparr>dryRun = False, path_exists = True, git_dir_exists = True,
       delivered = [(js ''git diff --cached --name-only'', [StdoutData (js ''a.js'' @ 10 # js ''b.js'' @ [10]), Exit (Some 0) None])]\<rparr>
     \<lparr>req_branchName = Some (js ''fix''), req_commitMessage = Some (js ''msg''),
       req_repoPath = None, req_confirm = JBool False\<rparr>) = [js ''git diff --cached --name-only''] \<and>
   logged (create_pr \<lparr>dryRun = False, path_exists = True, git_dir_exists = True,
       delivered = [(js ''git diff --cached --name-only'', [StdoutData (js ''a.js'' @ 10 # js ''b.js'' @ [10]), Exit (Some 0) None])]\<rparr>
     \<lparr>req_branchName = Some (js ''fix''), req_commitMessage = Some (js ''msg''),
       req_repoPath = None, req_confirm = JBool False\<rparr>) =
     [\<lparr>log_request = \<lparr>req_branchName = Some (js ''fix''), req_commitMessage = Some (js ''msg''),
       req_repoPath = None, req_confirm = JBool False\<rparr>,
       log_response = None, log_error = None\<rparr>] \<and>
   response (create_pr \<lparr>dryRun = True, path_exists = True, git_dir_exists = True,
       delivered = [(js ''git diff --cached --name-only'', [StdoutData (js ''a.js'' @ 10 # js ''b.js'' @ [10]), Exit (Some 0) None])]\<rparr>
     \<lparr>req_branchName = Some (js ''fix''), req_commitMessage = Some (js ''msg''),
       req_repoPath = None, req_confirm = JBool True\<rparr>) =
     Some (DryRun \<lparr>branchName = js ''fix'', commitMessage = js ''msg'',
       stagedFiles = [js ''a.js'', js ''b.js''],
       operations = [js ''Would create branch: fix'', js ''Would commit with message: msg'',
                     js ''Would push to remote (if configured)'']\<rparr>) \<and>
   take 2 (calls (create_pr \<lparr>dryRun = False, path_exists = True, git_dir_exists = True,
       delivered = [(js ''git diff --cached --name-only'', [StdoutData (js ''a.js'' @ 10 # js ''b.js'' @ [10]), Exit (Some 0) None])]\<rparr>
     \<lparr>req_branchName = Some (js ''fix''), req_commitMessage = Some (js ''msg''),
       req_repoPath = None, req_confirm = JBool True\<rparr>)) = [js ''git diff --cached --name-only'', js ''git checkout -b '' @ js ''fix''] \<and>
   join_on 10 [js ''a.js'', js ''b.js''] = js ''a.js'' @ 10 # js ''b.js''"
proof -
  have a: "response (create_pr \<lparr>dryRun = False, path_exists = True, git_dir_exists = True,
       delivered = [(js ''git diff --cached --name-only'', [StdoutData (js ''a.js'' @ 10 # js ''b.js'' @ [10]), Exit (Some 0) None])]\<rparr>
     \<lparr>req_branchName = Some (js ''fix''), req_commitMessage = Some (js ''msg''),
       req_repoPath = None, req_confirm = JBool False\<rparr>) =
     Some (ConfirmationRequired \<lparr>branchName = js ''fix'', commitMessage = js ''msg'',
       stagedFiles = [js ''a.js'', js ''b.js''],
       operations = [js ''Would create branch: fix'', js ''Would commit with message: msg'',
                     js ''Would push to remote (if configured)'']\<rparr>) \<and>
   calls (create_pr \<lparr>dryRun = False, path_exists = True, git_dir_exists = True,
       delivered = [(js ''git diff --cached --name-only'', [StdoutData (js ''a.js'' @ 10 # js ''b.js'' @ [10]), Exit (Some 0) None])]\<rparr>
     \<lparr>req_branchName = Some (js ''fix''), req_commitMessage = Some (js ''msg''),
       req_repoPath = None, req_confirm = JBool False\<rparr>) = [js ''git diff --cached --name-only''] \<and>
   logged (create_pr \<lparr>dryRun = False, path_exists = True, git_dir_exists = True,
       delivered = [(js ''git diff --cached --name-only'', [StdoutData (js ''a.js'' @ 10 # js ''b.js'' @ [10]), Exit (Some 0) None])]\<rparr>
     \<lparr>req_branchName = Some (js ''fix''), req_commitMessage = Some (js ''msg''),
       req_repoPath = None, req_confirm = JBool False\<rparr>) =
     [\<lparr>log_request = \<lparr>req_branchName = Some (js ''fix''), req_commitMessage = Some (js ''msg''),
       req_repoPath = None, req_confirm = JBool False\<rparr>,
       log_response = None, log_error = None\<rparr>] \<and>
   join_on 10 [js ''a.js'', js ''b.js''] = js ''a.js'' @ 10 # js ''b.js''"
    using gate_previews_unless_confirmed [OF example_body(1) [where c = "JBool False"] example_body(2)
      example_body(3) [where c = "JBool False"] example_body(4)
      example_server(1) [where dry = False] example_server(2) [where dry = False]
      diff_call [where dry = False] example_staged [symmetric] example_preview [symmetric]]
    by simp
  have b: "response (create_pr \<lparr>dryRun = True, path_exists = True, git_dir_exists = True,
       delivered = [(js ''git diff --cached --name-only'', [StdoutData (js ''a.js'' @ 10 # js ''b.js'' @ [10]), Exit (Some 0) None])]\<rparr>
     \<lparr>req_branchName = Some (js ''fix''), req_commitMessage = Some (js ''msg''),
       req_repoPath = None, req_confirm = JBool True\<rparr>) =
     Some (DryRun \<lparr>branchName = js ''fix'', commitMessage = js ''msg'',
       stagedFiles = [js ''a.js'', js ''b.js''],
       operations = [js ''Would create branch: fix'', js ''Would commit with message: msg'',
                     js ''Would push to remote (if configured)'']\<rparr>)"
    using gate_previews_unless_confirmed [OF example_body(1) [where c = "JBool True"] example_body(2)
      example_body(3) [where c = "JBool True"] example_body(4)
      example_server(1) [where dry = True] example_server(2) [where dry = True]
      diff_call [where dry = True] example_staged [symmetric] example_preview [symmetric]]
    by simp
  have c: "take 2 (calls (create_pr \<lparr>dryRun = False, path_exists = True, git_dir_exists = True,
       delivered = [(js ''git diff --cached --name-only'', [StdoutData (js ''a.js'' @ 10 # js ''b.js'' @ [10]), Exit (Some 0) None])]\<rparr>
     \<lparr>req_branchName = Some (js ''fix''), req_commitMessage = Some (js ''msg''),
       req_repoPath = None, req_confirm = JBool True\<rparr>)) = [js ''git diff --cached --name-only'', js ''git checkout -b '' @ js ''fix'']"
    using gate_previews_unless_confirmed [OF example_body(1) [where c = "JBool True"] example_body(2)
      example_body(3) [where c = "JBool True"] example_body(4)
      example_server(1) [where dry = False] example_server(2) [where dry = False]
      diff_call [where dry = False] example_staged [symmetric] example_preview [symmetric]]
    by simp
  from a b c show ?thesis by blast
qed

text \<open>
  C6 as stated fails: dry-run mode is off and the request is not confirmed, the handler
  answers with the preview, and it has appended a line to the log file, an effect on the
  file system.
\<close>

theorem preview_is_logged_counterexample:
  "create_pr \<lparr>dryRun = False, path_exists = True, git_dir_exists = True,
       delivered = [(js ''git diff --cached --name-only'', [StdoutData (js ''a.js'' @ 10 # js ''b.js'' @ [10]), Exit (Some 0) None])]\<rparr>
     \<lparr>req_branchName = Some (js ''fix''), req_commitMessage = Some (js ''msg''),
       req_repoPath = None, req_confirm = JBool False\<rparr> =
   \<lparr>response = Some (ConfirmationRequired \<lparr>branchName = js ''fix'', commitMessage = js ''msg'',
       stagedFiles = [js ''a.js'', js ''b.js''],
       operations = [js ''Would create branch: fix'', js ''Would commit with message: msg'',
                     js ''Would push to remote (if configured)'']\<rparr>),
    calls = [js ''git diff --cached --name-only''],
    logged = [\<lparr>log_request = \<lparr>req_branchName = Some (js ''fix''), req_commitMessage = Some (js ''msg''),
       req_repoPath = None, req_confirm = JBool False\<rparr>,
               log_response = None, log_error = None\<rparr>]\<rparr>"
proof -
  have "create_pr \<lparr>dryRun = False, path_exists = True, git_dir_exists = True,
       delivered = [(js ''git diff --cached --name-only'', [StdoutData (js ''a.js'' @ 10 # js ''b.js'' @ [10]), Exit (Some 0) None])]\<rparr>
     \<lparr>req_branchName = Some (js ''fix''), req_commitMessage = Some (js ''msg''),
       req_repoPath = None, req_confirm = JBool False\<rparr> =
     answered \<lparr>req_branchName = Some (js ''fix''), req_commitMessage = Some (js ''msg''),
       req_repoPath = None, req_confirm = JBool False\<rparr>
       (ConfirmationRequired (make_preview (js ''fix'') (js ''msg'') (js ''a.js'' @ 10 # js ''b.js'')))
       None None [js ''git diff --cached --name-only'']"
    using create_pr_gate [OF example_body(1) [where c = "JBool False"] example_body(2)
      example_body(3) [where c = "JBool False"] example_body(4)
      example_server(1) [where dry = False] example_server(2) [where dry = False]
      diff_call [where dry = False] example_staged [symmetric]]
    by simp
  then show ?thesis
    using example_preview by (simp add: answered_def logRequest_def make_preview_def)
qed

section \<open>The key store\<close>

lemma store_unavailable:
  assumes "secret \<noteq> []" "keytar k = LoadFailed \<or> (keytar k = NotLoaded \<and> \<not> import_succeeds pf)"
  shows "fst (storeApiKey pf (JString secret) k) = Inr False \<and>
         entry (snd (storeApiKey pf (JString secret) k)) = entry k \<and>
         console (snd (storeApiKey pf (JString secret) k)) = console k @
           [Warning ''Keychain not available. Please set OPENAI_API_KEY environment variable.'',
            Warning ''   To enable keychain storage, install: npm install keytar'']"
  using assms by (auto simp: storeApiKey_def loadKeytar_def)

lemma store_runtime_error:
  assumes "secret \<noteq> []"
    "(keytar k = Module \<and> keychainAvailable k) \<or> (keytar k = NotLoaded \<and> import_succeeds pf)"
    "setPassword_throws pf = Some msg"
  shows "fst (storeApiKey pf (JString secret) k) = Inl (KeychainStorageFailed msg) \<and>
         entry (snd (storeApiKey pf (JString secret) k)) = entry k \<and>
         console (snd (storeApiKey pf (JString secret) k)) = console k @
           [ErrorLine ''Failed to store key in keychain:'']"
  using assms by (auto simp: storeApiKey_def loadKeytar_def)

text \<open>
  C8, as the code has it.  For a key that is a non-empty string: when \<^verbatim>\<open>keytar\<close> cannot be
  imported (now, or at an earlier call), \<open>storeApiKey\<close> returns \<^verbatim>\<open>false\<close>, writes its two
  warnings and leaves the keychain entry alone; when \<^verbatim>\<open>keytar\<close> is loaded and
  \<^verbatim>\<open>setPassword\<close> throws, \<open>storeApiKey\<close> writes the error to the console, leaves the
  keychain entry alone and throws \<^verbatim>\<open>Keychain storage failed: <message>\<close>.
\<close>

theorem store_backend_failure_modes:
  assumes "secret \<noteq> []"
  shows "((keytar k = LoadFailed \<or> (keytar k = NotLoaded \<and> \<not> import_succeeds pf)) \<longrightarrow>
            fst (storeApiKey pf (JString secret) k) = Inr False \<and>
            entry (snd (storeApiKey pf (JString secret) k)) = entry k \<and>
            console (snd (storeApiKey pf (JString secret) k)) = console k @
              [Warning ''Keychain not available. Please set OPENAI_API_KEY environment variable.'',
               Warning ''   To enable keychain storage, install: npm install keytar'']) \<and>
         (((keytar k = Module \<and> keychainAvailable k) \<or> (keytar k = NotLoaded \<and> import_succeeds pf)) \<and>
          setPassword_throws pf = Some msg \<longrightarrow>
            fst (storeApiKey pf (JString secret) k) = Inl (KeychainStorageFailed msg) \<and>
            entry (snd (storeApiKey pf (JString secret) k)) = entry k \<and>
            console (snd (storeApiKey pf (JString secret) k)) = console k @
              [ErrorLine ''Failed to store key in keychain:''])"
  using store_unavailable [OF assms] store_runtime_error [OF assms] by blast

theorem store_backend_failure_modes_witness:
  "js ''sk-test'' \<noteq> [] \<and>
   fst (storeApiKey \<lparr>import_succeeds = False, setPassword_throws = None\<rparr>
          (JString (js ''sk-test'')) initial_keychain) = Inr False \<and>
   console (snd (storeApiKey \<lparr>import_succeeds = False, setPassword_throws = None\<rparr>
          (JString (js ''sk-test'')) initial_keychain)) =
     [Warning ''Keychain not available. Please set OPENAI_API_KEY environment variable.'',
      Warning ''   To enable keychain storage, install: npm install keytar''] \<and>
   fst (storeApiKey \<lparr>import_succeeds = True, setPassword_throws = Some (js ''locked'')\<rparr>
          (JString (js ''sk-test'')) initial_keychain) = Inl (KeychainStorageFailed (js ''locked'')) \<and>
   entry (snd (storeApiKey \<lparr>import_succeeds = True, setPassword_throws = Some (js ''locked'')\<rparr>
          (JString (js ''sk-test'')) initial_keychain)) = None \<and>
   console (snd (storeApiKey \<lparr>import_succeeds = True, setPassword_throws = Some (js ''locked'')\<rparr>
          (JString (js ''sk-test'')) initial_keychain)) =
     [ErrorLine ''Failed to store key in keychain:'']"
proof -
  have n: "js ''sk-test'' \<noteq> []" by (simp add: js_def)
  from store_backend_failure_modes [OF n, of initial_keychain
      "\<lparr>import_succeeds = False, setPassword_throws = None\<rparr>"]
    store_backend_failure_modes [OF n, of initial_keychain
      "\<lparr>import_succeeds = True, setPassword_throws = Some (js ''locked'')\<rparr>" "js ''locked''"]
    n
  show ?thesis by (simp add: initial_keychain_def)
qed

text \<open>
  C8 as stated fails: \<^verbatim>\<open>keytar\<close> is installed and loads, \<^verbatim>\<open>setPassword\<close> fails at run time,
  and \<open>storeApiKey\<close> writes an error to the console and throws instead of returning
  \<^verbatim>\<open>false\<close>.
\<close>

theorem store_rethrows_runtime_error_counterexample:
  "storeApiKey \<lparr>import_succeeds = True, setPassword_throws = Some (js ''locked'')\<rparr>
     (JString (js ''sk-test'')) initial_keychain =
   (Inl (KeychainStorageFailed (js ''locked'')),
    \<lparr>keytar = Module, keychainAvailable = True, entry = None,
     console = [ErrorLine ''Failed to store key in keychain:'']\<rparr>)"
  by (simp add: storeApiKey_def loadKeytar_def initial_keychain_def js_def)

end
